theory Spec2Isabelle
  imports Main "HOL-Library.AList" "HOL-Library.Sublist" "HOL-Library.Char_ord"
    "HOL-Library.List_Lexorder"
begin

section \<open>Text\<close>

text \<open>
  Python's \<open>str\<close> is modelled by \<^typ>\<open>string\<close>: a list of characters with code points
  0 to 255. The functions below are the \<open>str\<close> methods that \<open>extractor.py\<close> calls.
\<close>

definition isspace :: "char \<Rightarrow> bool" where
  \<comment> \<open>\<open>str.isspace\<close> on one character, which is also what \<open>\s\<close> matches in \<open>re\<close>:
      tab, line feed, vertical tab, form feed, carriage return, the four separators
      0x1C to 0x1F, space, NEL and the no-break space.\<close>
  "isspace c = (of_char c \<in> {9, 10, 11, 12, 13, 28, 29, 30, 31, 32, 133, 160 :: nat})"

definition strip :: "string \<Rightarrow> string" where
  \<comment> \<open>\<open>s.strip()\<close>\<close>
  "strip s = rev (dropWhile isspace (rev (dropWhile isspace s)))"

definition lower_char :: "char \<Rightarrow> char" where
  "lower_char c =
     (let n = (of_char c :: nat)
      in if (65 \<le> n \<and> n \<le> 90) \<or> (192 \<le> n \<and> n \<le> 222 \<and> n \<noteq> 215)
         then char_of (n + 32) else c)"

definition lower :: "string \<Rightarrow> string" where
  \<comment> \<open>\<open>s.lower()\<close>\<close>
  "lower s = map lower_char s"

definition startswith :: "string \<Rightarrow> string \<Rightarrow> bool" where
  \<comment> \<open>\<open>s.startswith(p)\<close>\<close>
  "startswith s p = (take (length p) s = p)"

definition endswith :: "string \<Rightarrow> string \<Rightarrow> bool" where
  \<comment> \<open>\<open>s.endswith(p)\<close>\<close>
  "endswith s p = (length p \<le> length s \<and> drop (length s - length p) s = p)"

definition endswith_any :: "string \<Rightarrow> string list \<Rightarrow> bool" where
  \<comment> \<open>\<open>s.endswith((p1, p2, ...))\<close>\<close>
  "endswith_any s ps = list_ex (endswith s) ps"

fun split_lines :: "string \<Rightarrow> string list" where
  \<comment> \<open>\<open>s.split('\n')\<close>: never empty, the empty string gives one empty line\<close>
  "split_lines [] = [[]]"
| "split_lines (c # cs) =
     (if c = CHR 0x0A then [] # split_lines cs
      else (case split_lines cs of [] \<Rightarrow> [[c]] | l # ls \<Rightarrow> (c # l) # ls))"

fun join_lines :: "string list \<Rightarrow> string" where
  \<comment> \<open>\<open>'\n'.join(ls)\<close>\<close>
  "join_lines [] = []"
| "join_lines [l] = l"
| "join_lines (l # ls) = l @ CHR 0x0A # join_lines ls"

section \<open>JSON values\<close>

text \<open>
  The values \<open>json.loads\<close> returns. A Python \<open>float\<close> is kept as the decimal numeral it
  was read from (\<open>Decimal m e\<close> stands for the double nearest to \<open>m * 10 ^ e\<close>), or as one
  of the three constants the decoder accepts. A \<open>dict\<close> is an association list with
  distinct keys in insertion order. \<open>JNull\<close> is Python's \<open>None\<close>.
\<close>

datatype pyfloat = Decimal int int | NaN | Infinity | NegInfinity

datatype json =
    JNull
  | JBool bool
  | JInt int
  | JFloat pyfloat
  | JStr string
  | JArr "json list"
  | JObj "(string \<times> json) list"

type_synonym dict = "(string \<times> json) list"

definition get :: "dict \<Rightarrow> string \<Rightarrow> json" where
  \<comment> \<open>\<open>d.get(k)\<close>: the value, or \<open>None\<close> when the key is absent\<close>
  "get d k = (case map_of d k of Some v \<Rightarrow> v | None \<Rightarrow> JNull)"

definition get_default :: "dict \<Rightarrow> string \<Rightarrow> json \<Rightarrow> json" where
  \<comment> \<open>\<open>d.get(k, default)\<close>\<close>
  "get_default d k dflt = (case map_of d k of Some v \<Rightarrow> v | None \<Rightarrow> dflt)"

definition has_key :: "string \<Rightarrow> dict \<Rightarrow> bool" where
  \<comment> \<open>\<open>k in d\<close>\<close>
  "has_key k d = (k \<in> fst ` set d)"

definition setitem :: "dict \<Rightarrow> string \<Rightarrow> json \<Rightarrow> dict" where
  \<comment> \<open>\<open>d[k] = v\<close>\<close>
  "setitem d k v = AList.update k v d"

definition float_is_zero :: "pyfloat \<Rightarrow> bool" where
  \<comment> \<open>whether the double is 0.0: the numeral is zero, or it rounds to zero because its
      magnitude is at most half the least subnormal double, \<open>2 ^ -1075\<close>\<close>
  "float_is_zero f =
     (case f of
        Decimal m e \<Rightarrow>
          m = 0 \<or> (e < 0 \<and> \<bar>m\<bar> * 2 ^ 1075 \<le> 10 ^ nat (- e))
      | _ \<Rightarrow> False)"

fun truthy :: "json \<Rightarrow> bool" where
  \<comment> \<open>Python's truth value of an object, as \<open>if x\<close> and \<open>or\<close> test it\<close>
  "truthy JNull = False"
| "truthy (JBool b) = b"
| "truthy (JInt i) = (i \<noteq> 0)"
| "truthy (JFloat f) = (\<not> float_is_zero f)"
| "truthy (JStr s) = (s \<noteq> [])"
| "truthy (JArr xs) = (xs \<noteq> [])"
| "truthy (JObj kvs) = (kvs \<noteq> [])"

section \<open>The JSON decoder\<close>

text \<open>
  \<open>json.loads\<close> belongs to Python's standard library, not to this repository. The general
  theorems below take it as a parameter \<open>loads\<close>, where \<open>loads s = None\<close> stands for
  \<open>json.JSONDecodeError\<close>; they hold whatever the decoder does. \<open>json_loads\<close> is a model of
  the decoder, used to evaluate the program on concrete replies: the JSON grammar with
  the decoder's extensions (\<open>NaN\<close>, \<open>Infinity\<close>, \<open>-Infinity\<close>), its four white-space
  characters, strict strings (no control characters), and later duplicates of a key
  replacing earlier ones. An escape \<open>\uXXXX\<close> of a code point above 255 has no
  counterpart in \<^typ>\<open>char\<close> and is refused; no reply used below contains one.
  Exceptions of the library other than \<open>JSONDecodeError\<close> (the recursion limit on
  deeply nested input, the limit on the digits of an integer) are not modelled.

  The model reads the text in two passes: \<open>lex\<close> cuts it into tokens, \<open>parse\<close> runs a
  stack machine over them.
\<close>

datatype token = TLBrace | TRBrace | TLBrack | TRBrack | TComma | TColon | TValue json

definition is_digit :: "char \<Rightarrow> bool" where
  "is_digit c = (48 \<le> (of_char c :: nat) \<and> (of_char c :: nat) \<le> 57)"

definition digits_value :: "string \<Rightarrow> int" where
  "digits_value ds = foldl (\<lambda>n c. 10 * n + (of_char c - 48)) 0 ds"

definition number_of_word :: "string \<Rightarrow> json option" where
  \<comment> \<open>the decoder's number pattern \<open>(-?(?:0|[1-9]\d*))(\.\d+)?([eE][-+]?\d+)?\<close>, matching
      the whole word; an integer when there is neither fraction nor exponent\<close>
  "number_of_word w =
     (let neg = (w \<noteq> [] \<and> hd w = CHR ''-'');
          w1 = (if neg then tl w else w);
          ip = takeWhile is_digit w1;
          w2 = dropWhile is_digit w1;
          has_frac = (w2 \<noteq> [] \<and> hd w2 = CHR ''.'');
          fp = (if has_frac then takeWhile is_digit (tl w2) else []);
          w3 = (if has_frac then dropWhile is_digit (tl w2) else w2);
          has_exp = (w3 \<noteq> [] \<and> (hd w3 = CHR ''e'' \<or> hd w3 = CHR ''E''));
          w4 = (if has_exp then tl w3 else w3);
          eneg = (has_exp \<and> w4 \<noteq> [] \<and> hd w4 = CHR ''-'');
          w5 = (if has_exp \<and> w4 \<noteq> [] \<and> (hd w4 = CHR ''-'' \<or> hd w4 = CHR ''+'')
                then tl w4 else w4);
          ep = (if has_exp then takeWhile is_digit w5 else []);
          w6 = (if has_exp then dropWhile is_digit w5 else w5);
          sgn = (if neg then - 1 else 1 :: int)
      in if ip = [] \<or> (hd ip = CHR ''0'' \<and> length ip > 1) then None
         else if has_frac \<and> fp = [] then None
         else if has_exp \<and> ep = [] then None
         else if w6 \<noteq> [] then None
         else if \<not> has_frac \<and> \<not> has_exp then Some (JInt (sgn * digits_value ip))
         else Some (JFloat (Decimal (sgn * digits_value (ip @ fp))
                 ((if eneg then - digits_value ep else digits_value ep)
                   - int (length fp)))))"

definition scalar_of_word :: "string \<Rightarrow> json option" where
  "scalar_of_word w =
     (if w = ''null'' then Some JNull
      else if w = ''true'' then Some (JBool True)
      else if w = ''false'' then Some (JBool False)
      else if w = ''NaN'' then Some (JFloat NaN)
      else if w = ''Infinity'' then Some (JFloat Infinity)
      else if w = ''-Infinity'' then Some (JFloat NegInfinity)
      else number_of_word w)"

definition punct :: "char \<Rightarrow> token option" where
  "punct c =
     (if c = CHR ''{'' then Some TLBrace
      else if c = CHR ''}'' then Some TRBrace
      else if c = CHR ''['' then Some TLBrack
      else if c = CHR '']'' then Some TRBrack
      else if c = CHR '','' then Some TComma
      else if c = CHR '':'' then Some TColon
      else None)"

definition json_ws :: "char \<Rightarrow> bool" where
  \<comment> \<open>the decoder's white space, \<open>[ \t\n\r]\<close>\<close>
  "json_ws c = (c = CHR '' '' \<or> c = CHR 0x09 \<or> c = CHR 0x0A \<or> c = CHR 0x0D)"

definition hex_digit :: "char \<Rightarrow> nat option" where
  "hex_digit c =
     (let n = (of_char c :: nat)
      in if 48 \<le> n \<and> n \<le> 57 then Some (n - 48)
         else if 65 \<le> n \<and> n \<le> 70 then Some (n - 55)
         else if 97 \<le> n \<and> n \<le> 102 then Some (n - 87)
         else None)"

definition unescape :: "char \<Rightarrow> char option" where
  \<comment> \<open>the character after a backslash, \<open>u\<close> apart\<close>
  "unescape c =
     (if c = CHR 0x22 then Some (CHR 0x22)
      else if c = CHR 0x5C then Some (CHR 0x5C)
      else if c = CHR ''/'' then Some (CHR ''/'')
      else if c = CHR ''b'' then Some (CHR 0x08)
      else if c = CHR ''f'' then Some (CHR 0x0C)
      else if c = CHR ''n'' then Some (CHR 0x0A)
      else if c = CHR ''r'' then Some (CHR 0x0D)
      else if c = CHR ''t'' then Some (CHR 0x09)
      else None)"

datatype lex_mode =
    Between
  | Word string
  | Str string
  | Esc string
  | Uni string "nat list"

definition lex_between :: "token list \<Rightarrow> char \<Rightarrow> (lex_mode \<times> token list) option" where
  "lex_between toks c =
     (if c = CHR 0x22 then Some (Str [], toks)
      else if json_ws c then Some (Between, toks)
      else (case punct c of
              Some t \<Rightarrow> Some (Between, toks @ [t])
            | None \<Rightarrow> Some (Word [c], toks)))"

fun lex_step :: "lex_mode \<times> token list \<Rightarrow> char \<Rightarrow> (lex_mode \<times> token list) option" where
  "lex_step (Between, toks) c = lex_between toks c"
| "lex_step (Word w, toks) c =
     (if c = CHR 0x22 \<or> json_ws c \<or> punct c \<noteq> None
      then (case scalar_of_word w of
              None \<Rightarrow> None
            | Some v \<Rightarrow> lex_between (toks @ [TValue v]) c)
      else Some (Word (w @ [c]), toks))"
| "lex_step (Str s, toks) c =
     (if c = CHR 0x22 then Some (Between, toks @ [TValue (JStr s)])
      else if c = CHR 0x5C then Some (Esc s, toks)
      else if (of_char c :: nat) < 32 then None
      else Some (Str (s @ [c]), toks))"
| "lex_step (Esc s, toks) c =
     (if c = CHR ''u'' then Some (Uni s [], toks)
      else (case unescape c of
              None \<Rightarrow> None
            | Some d \<Rightarrow> Some (Str (s @ [d]), toks)))"
| "lex_step (Uni s ds, toks) c =
     (case hex_digit c of
        None \<Rightarrow> None
      | Some d \<Rightarrow>
          if length ds < 3 then Some (Uni s (ds @ [d]), toks)
          else (let n = foldl (\<lambda>a b. 16 * a + b) 0 (ds @ [d])
                in if n < 256 then Some (Str (s @ [char_of n]), toks) else None))"

fun lex_run :: "lex_mode \<times> token list \<Rightarrow> string \<Rightarrow> token list option" where
  "lex_run (Between, toks) [] = Some toks"
| "lex_run (Word w, toks) [] =
     (case scalar_of_word w of None \<Rightarrow> None | Some v \<Rightarrow> Some (toks @ [TValue v]))"
| "lex_run (_, toks) [] = None"
| "lex_run st (c # cs) =
     (case lex_step st c of None \<Rightarrow> None | Some st' \<Rightarrow> lex_run st' cs)"

definition lex :: "string \<Rightarrow> token list option" where
  "lex s = lex_run (Between, []) s"

datatype frame =
    InArr "json list"
  | InObj dict
  | InField dict string

datatype expect = Value | ValueOrClose | Key | KeyOrClose | Colon | After | Done json

fun complete :: "json \<Rightarrow> frame list \<Rightarrow> (frame list \<times> expect) option" where
  \<comment> \<open>a value has been read: it is the document, the next element of the enclosing
      array, or the value of the pending key of the enclosing object\<close>
  "complete v [] = Some ([], Done v)"
| "complete v (InArr xs # st) = Some (InArr (xs @ [v]) # st, After)"
| "complete v (InField kvs k # st) = Some (InObj (AList.update k v kvs) # st, After)"
| "complete v (InObj kvs # st) = None"

fun begin_value :: "token \<Rightarrow> frame list \<Rightarrow> (frame list \<times> expect) option" where
  "begin_value (TValue v) st = complete v st"
| "begin_value TLBrack st = Some (InArr [] # st, ValueOrClose)"
| "begin_value TLBrace st = Some (InObj [] # st, KeyOrClose)"
| "begin_value _ st = None"

fun begin_key :: "token \<Rightarrow> frame list \<Rightarrow> (frame list \<times> expect) option" where
  "begin_key (TValue (JStr k)) (InObj kvs # st) = Some (InField kvs k # st, Colon)"
| "begin_key _ _ = None"

fun parse_step :: "frame list \<times> expect \<Rightarrow> token \<Rightarrow> (frame list \<times> expect) option" where
  "parse_step (st, Value) t = begin_value t st"
| "parse_step (InArr xs # st, ValueOrClose) TRBrack = complete (JArr xs) st"
| "parse_step (st, ValueOrClose) t = begin_value t st"
| "parse_step (InObj kvs # st, KeyOrClose) TRBrace = complete (JObj kvs) st"
| "parse_step (st, KeyOrClose) t = begin_key t st"
| "parse_step (st, Key) t = begin_key t st"
| "parse_step (st, Colon) TColon = Some (st, Value)"
| "parse_step (st, Colon) _ = None"
| "parse_step (InArr xs # st, After) TComma = Some (InArr xs # st, Value)"
| "parse_step (InArr xs # st, After) TRBrack = complete (JArr xs) st"
| "parse_step (InObj kvs # st, After) TComma = Some (InObj kvs # st, Key)"
| "parse_step (InObj kvs # st, After) TRBrace = complete (JObj kvs) st"
| "parse_step (st, After) _ = None"
| "parse_step (st, Done v) _ = None"

fun parse_run :: "frame list \<times> expect \<Rightarrow> token list \<Rightarrow> json option" where
  "parse_run ([], Done v) [] = Some v"
| "parse_run _ [] = None"
| "parse_run st (t # ts) =
     (case parse_step st t of None \<Rightarrow> None | Some st' \<Rightarrow> parse_run st' ts)"

definition json_loads :: "string \<Rightarrow> json option" where
  "json_loads s = (case lex s of None \<Rightarrow> None | Some ts \<Rightarrow> parse_run ([], Value) ts)"

section \<open>The fenced-block pattern\<close>

text \<open>
  \<open>re.search(r'```(?:json)?\s*(\{.*?\})\s*```', content, re.DOTALL | re.IGNORECASE)\<close>.
  Each piece of the pattern is a matcher in continuation style: it consumes a prefix of
  the text and hands the rest to the matcher of what follows, and when that fails it
  tries its next alternative, in the order of Python's backtracking engine (a greedy
  piece tries its longest match first, a lazy one its shortest). The first success
  is the match that \<open>re\<close> reports.
\<close>

type_synonym 'a cont = "string \<Rightarrow> 'a option"

definition lit :: "string \<Rightarrow> 'a cont \<Rightarrow> 'a cont" where
  \<comment> \<open>a literal, compared without regard to case (\<open>re.IGNORECASE\<close>)\<close>
  "lit p k s =
     (if lower (take (length p) s) = lower p then k (drop (length p) s) else None)"

definition opt :: "('a cont \<Rightarrow> 'a cont) \<Rightarrow> 'a cont \<Rightarrow> 'a cont" where
  \<comment> \<open>\<open>(?:m)?\<close>, greedy: with \<open>m\<close> first, then without\<close>
  "opt m k s = (case m k s of Some r \<Rightarrow> Some r | None \<Rightarrow> k s)"

fun ws_star :: "'a cont \<Rightarrow> 'a cont" where
  \<comment> \<open>\<open>\s*\<close>, greedy: as many white-space characters as possible first\<close>
  "ws_star k [] = k []"
| "ws_star k (c # cs) =
     (if isspace c
      then (case ws_star k cs of Some r \<Rightarrow> Some r | None \<Rightarrow> k (c # cs))
      else k (c # cs))"

fun lazy_dot :: "'a cont \<Rightarrow> 'a cont" where
  \<comment> \<open>\<open>.*?\<close> under \<open>re.DOTALL\<close>, lazy: as few characters as possible first\<close>
  "lazy_dot k [] = k []"
| "lazy_dot k (c # cs) =
     (case k (c # cs) of Some r \<Rightarrow> Some r | None \<Rightarrow> lazy_dot k cs)"

definition fence_match :: "string \<Rightarrow> string option" where
  \<comment> \<open>the pattern matched at the start of \<open>s\<close>; the result is group 1, the text between
      the position \<open>g\<close> where the group opens and the position \<open>r\<close> where it closes\<close>
  "fence_match =
     lit ''```'' (opt (lit ''json'') (ws_star (\<lambda>g.
       lit ''{'' (lazy_dot (lit ''}'' (\<lambda>r.
         ws_star (lit ''```'' (\<lambda>_. Some (take (length g - length r) g))) r))) g)))"

fun re_search :: "string \<Rightarrow> string option" where
  \<comment> \<open>\<open>re.search\<close>: the match at the leftmost position that has one\<close>
  "re_search [] = fence_match []"
| "re_search (c # cs) =
     (case fence_match (c # cs) of Some g \<Rightarrow> Some g | None \<Rightarrow> re_search cs)"

section \<open>The Response Extractor\<close>

fun first_index :: "('a \<Rightarrow> bool) \<Rightarrow> 'a list \<Rightarrow> nat option" where
  \<comment> \<open>the forward loop with \<open>break\<close>; \<open>None\<close> is the initial \<open>-1\<close>\<close>
  "first_index P [] = None"
| "first_index P (x # xs) = (if P x then Some 0 else map_option Suc (first_index P xs))"

fun last_index :: "('a \<Rightarrow> bool) \<Rightarrow> 'a list \<Rightarrow> nat option" where
  \<comment> \<open>the backward loop with \<open>break\<close>\<close>
  "last_index P [] = None"
| "last_index P (x # xs) =
     (case last_index P xs of
        Some i \<Rightarrow> Some (Suc i)
      | None \<Rightarrow> if P x then Some 0 else None)"

datatype tier = Direct | Fenced | LineScan

definition line_range :: "string \<Rightarrow> string option" where
  \<comment> \<open>the third strategy's candidate: \<open>'\n'.join(content_lines[json_start:json_end+1])\<close>,
      when both indices were found\<close>
  "line_range content =
     (let content_lines = split_lines (strip content);
          json_start = first_index (\<lambda>line. startswith (strip line) ''{'') content_lines;
          json_end = last_index (\<lambda>line. endswith (strip line) ''}'') content_lines
      in case (json_start, json_end) of
           (Some s, Some e) \<Rightarrow> Some (join_lines (drop s (take (Suc e) content_lines)))
         | _ \<Rightarrow> None)"

definition extract_json_trace :: "(string \<Rightarrow> json option) \<Rightarrow> string \<Rightarrow> tier list \<times> json" where
  \<comment> \<open>\<open>extract_json_from_response\<close>, together with the strategies that were run, in the
      order they were run\<close>
  "extract_json_trace loads content =
     (case loads (strip content) of
        Some v \<Rightarrow> ([Direct], v)
      | None \<Rightarrow>
         (case (case re_search content of None \<Rightarrow> None | Some g \<Rightarrow> loads g) of
            Some v \<Rightarrow> ([Direct, Fenced], v)
          | None \<Rightarrow>
             ([Direct, Fenced, LineScan],
              (case line_range content of
                 None \<Rightarrow> JNull
               | Some json_text \<Rightarrow>
                  (case loads json_text of Some v \<Rightarrow> v | None \<Rightarrow> JNull)))))"

definition extract_json_from_response :: "(string \<Rightarrow> json option) \<Rightarrow> string \<Rightarrow> json" where
  "extract_json_from_response loads content = snd (extract_json_trace loads content)"

section \<open>The database\<close>

text \<open>
  The three tables of \<open>init_db.py\<close>. A row is the association of column names with the
  values bound to them; the columns the engine fills by itself (\<open>created_at\<close>, and the
  \<open>id\<close> of an entry) are left out. \<open>last_document_id\<close> is the counter behind
  \<open>documents.id INTEGER PRIMARY KEY AUTOINCREMENT\<close>. A value of type \<open>database\<close> is the
  committed content; an open transaction is a second value of the type, which replaces
  the first at \<open>conn.commit()\<close> and is dropped when an exception leaves the block (the
  connection is then abandoned without a commit). Rows hold the values as they are
  bound; the conversions the engine applies to a column of type \<open>TEXT\<close> and
  \<open>conn.close()\<close> are not modelled.
\<close>

type_synonym row = dict

record database =
  documents :: "row list"
  index1_entries :: "row list"
  index2_entries :: "row list"
  last_document_id :: nat

datatype db_error =
    ConnectFailed
  | EngineFailed nat
  | NotNullViolation
  | UnsupportedType
  | IntegerOverflow
  | NotIterable
  | NoGetAttribute

text \<open>
  What is outside the program: the clock, the image files, the inference server, the
  directory listings, and the faults of the database engine (\<open>engine_fault path k\<close>: while
  the result of \<open>path\<close> is persisted, step \<open>k\<close> raises; step 0 is \<open>sqlite3.connect\<close>, step
  1 the insertion of the document, step \<open>2 + i\<close> the insertion of entry \<open>i\<close>, and the step
  after the last entry is \<open>conn.commit()\<close>). \<open>str_error\<close> is \<open>str(db_error)\<close>.
\<close>

datatype prompt = Index1Prompt | Index2Prompt

datatype reply =
    RequestException string
  | OtherException string
  | NoChoices
  | Content string

record env =
  now :: string
  encode_image :: "string \<Rightarrow> string + string"
  post :: "prompt \<Rightarrow> string \<Rightarrow> reply"
  listdir :: "string \<Rightarrow> string list option"
  engine_fault :: "string \<Rightarrow> nat \<Rightarrow> bool"
  str_error :: "db_error \<Rightarrow> string"

definition bindable :: "json \<Rightarrow> db_error option" where
  \<comment> \<open>the Python values \<open>sqlite3\<close> binds to a parameter: \<open>None\<close>, \<open>bool\<close>, \<open>int\<close> within 64
      bits, \<open>float\<close> and \<open>str\<close>\<close>
  "bindable v =
     (case v of
        JArr _ \<Rightarrow> Some UnsupportedType
      | JObj _ \<Rightarrow> Some UnsupportedType
      | JInt i \<Rightarrow>
          if - (2 ^ 63) \<le> i \<and> i < 2 ^ 63 then None else Some IntegerOverflow
      | _ \<Rightarrow> None)"

fun bind_all :: "json list \<Rightarrow> db_error option" where
  "bind_all [] = None"
| "bind_all (v # vs) = (case bindable v of Some e \<Rightarrow> Some e | None \<Rightarrow> bind_all vs)"

definition sql_null :: "json \<Rightarrow> bool" where
  \<comment> \<open>stored as NULL: \<open>None\<close>, and the float \<open>nan\<close>\<close>
  "sql_null v = (v = JNull \<or> v = JFloat NaN)"

definition document_columns :: "string list" where
  "document_columns =
     [''document_type'', ''year'', ''office_location'', ''confidence'',
      ''extraction_notes'', ''source_path'']"

definition insert_document :: "database \<Rightarrow> json list \<Rightarrow> db_error + database" where
  \<comment> \<open>\<open>INSERT INTO documents (document_type, year, office_location, confidence,
      extraction_notes, source_path) VALUES (?, ?, ?, ?, ?, ?)\<close>; \<open>document_type\<close> and
      \<open>source_path\<close> are declared \<open>NOT NULL\<close>\<close>
  "insert_document tx params =
     (case bind_all params of
        Some e \<Rightarrow> Inl e
      | None \<Rightarrow>
          if sql_null (get (zip document_columns params) ''document_type'')
             \<or> sql_null (get (zip document_columns params) ''source_path'')
          then Inl NotNullViolation
          else Inr (tx\<lparr>documents := documents tx @
                         [(''id'', JInt (int (Suc (last_document_id tx))))
                          # zip document_columns params],
                       last_document_id := Suc (last_document_id tx)\<rparr>))"

definition index1_keys :: "string list" where
  "index1_keys =
     [''serial_number'', ''name_of_person'', ''family_details'', ''police_station'',
      ''religion'', ''occupation'', ''interest_of_person'', ''where_registered'',
      ''book_1_volume'', ''book_2_page'']"

definition index1_columns :: "string list" where
  "index1_columns =
     [''serial_number'', ''name_of_person'', ''family_details'', ''police_station'',
      ''religion'', ''occupation'', ''interest_of_person'', ''where_registered'',
      ''book_1_volume'', ''book_2_page'']"

definition index2_keys :: "string list" where
  "index2_keys =
     [''serial_number'', ''property_name'', ''Pargana/Town/Thana'', ''location'',
      ''nature_of_transaction'', ''where_registered'', ''book_1_volume'', ''book_1_page'']"

definition index2_columns :: "string list" where
  "index2_columns =
     [''serial_number'', ''property_name'', ''pargana_town_thana'', ''location'',
      ''nature_of_transaction'', ''where_registered'', ''book_1_volume'', ''book_1_page'']"

definition entry_row :: "string \<Rightarrow> nat \<Rightarrow> dict \<Rightarrow> row" where
  \<comment> \<open>the columns and the parameter tuple of the \<open>INSERT\<close> for one entry\<close>
  "entry_row index_type document_id entry =
     (''document_id'', JInt (int document_id))
     # (if index_type = ''INDEX_1''
        then zip index1_columns (map (get entry) index1_keys)
        else zip index2_columns (map (get entry) index2_keys))"

definition insert_entry :: "string \<Rightarrow> database \<Rightarrow> row \<Rightarrow> db_error + database" where
  "insert_entry index_type tx r =
     (case bind_all (map snd r) of
        Some e \<Rightarrow> Inl e
      | None \<Rightarrow>
          Inr (if index_type = ''INDEX_1''
               then tx\<lparr>index1_entries := index1_entries tx @ [r]\<rparr>
               else tx\<lparr>index2_entries := index2_entries tx @ [r]\<rparr>))"

definition iterate :: "json \<Rightarrow> db_error + json list" where
  \<comment> \<open>the items \<open>for entry in x\<close> runs over: the elements of a list, the keys of a dict,
      the characters of a string; anything else is not iterable\<close>
  "iterate x =
     (case x of
        JArr xs \<Rightarrow> Inr xs
      | JObj kvs \<Rightarrow> Inr (map (\<lambda>kv. JStr (fst kv)) kvs)
      | JStr s \<Rightarrow> Inr (map (\<lambda>c. JStr [c]) s)
      | _ \<Rightarrow> Inl NotIterable)"

fun insert_entries ::
  "env \<Rightarrow> string \<Rightarrow> string \<Rightarrow> nat \<Rightarrow> nat \<Rightarrow> json list \<Rightarrow> database \<Rightarrow> db_error + database" where
  \<comment> \<open>the loop over the entries; \<open>k\<close> is the number of the step. \<open>entry.get\<close> exists on a dict
      only, and the parameter tuple is built before \<open>cursor.execute\<close> is called\<close>
  "insert_entries env image_path index_type document_id k [] tx = Inr tx"
| "insert_entries env image_path index_type document_id k (entry # rest) tx =
     (case entry of
        JObj d \<Rightarrow>
          if engine_fault env image_path k then Inl (EngineFailed k)
          else (case insert_entry index_type tx (entry_row index_type document_id d) of
                  Inl e \<Rightarrow> Inl e
                | Inr tx' \<Rightarrow>
                    insert_entries env image_path index_type document_id (Suc k) rest tx')
      | _ \<Rightarrow> Inl NoGetAttribute)"

definition persist :: "env \<Rightarrow> database \<Rightarrow> string \<Rightarrow> string \<Rightarrow> dict \<Rightarrow> db_error + database" where
  \<comment> \<open>the body of the inner \<open>try\<close> of \<open>extract_document\<close>: the committed database, or the
      exception that left the block\<close>
  "persist env db image_path index_type json_data =
     (if engine_fault env image_path 0 then Inl ConnectFailed
      else if engine_fault env image_path 1 then Inl (EngineFailed 1)
      else
        (case insert_document db
                [get json_data ''document_type'', get json_data ''year'',
                 get json_data ''office_location'', get json_data ''confidence'',
                 get json_data ''extraction_notes'', JStr image_path] of
           Inl e \<Rightarrow> Inl e
         | Inr tx \<Rightarrow>
            (case iterate (get_default json_data ''entries'' (JArr [])) of
               Inl e \<Rightarrow> Inl e
             | Inr entries \<Rightarrow>
                (case insert_entries env image_path index_type (last_document_id tx) 2
                        entries tx of
                   Inl e \<Rightarrow> Inl e
                 | Inr tx' \<Rightarrow>
                     if engine_fault env image_path (2 + length entries)
                     then Inl (EngineFailed (2 + length entries))
                     else Inr tx'))))"

section \<open>One document\<close>

definition prompt_text :: "string \<Rightarrow> prompt" where
  \<comment> \<open>the two prompt texts, by name\<close>
  "prompt_text index_type = (if index_type = ''INDEX_1'' then Index1Prompt else Index2Prompt)"

definition error_result :: "env \<Rightarrow> string \<Rightarrow> string \<Rightarrow> string \<Rightarrow> dict" where
  "error_result env image_path index_type message =
     [(''source_path'', JStr image_path),
      (''processed_at'', JStr (now env)),
      (''index_type'', JStr index_type),
      (''error'', JStr message)]"

definition parsing_error_result :: "env \<Rightarrow> string \<Rightarrow> string \<Rightarrow> string \<Rightarrow> dict" where
  "parsing_error_result env image_path index_type content =
     [(''source_path'', JStr image_path),
      (''processed_at'', JStr (now env)),
      (''index_type'', JStr index_type),
      (''raw_content'', JStr content),
      (''parsing_error'', JBool True),
      (''error'', JStr ''Could not extract valid JSON from response'')]"

definition item_assignment_error :: "json \<Rightarrow> string" where
  \<comment> \<open>\<open>str\<close> of the \<open>TypeError\<close> that \<open>json_data["source_path"] = ...\<close> raises when
      \<open>json_data\<close> is not a dict\<close>
  "item_assignment_error v =
     (case v of
        JArr _ \<Rightarrow> ''list indices must be integers or slices, not str''
      | JStr _ \<Rightarrow> [CHR 0x27] @ ''str'' @ [CHR 0x27] @ '' object does not support item assignment''
      | JInt _ \<Rightarrow> [CHR 0x27] @ ''int'' @ [CHR 0x27] @ '' object does not support item assignment''
      | JFloat _ \<Rightarrow> [CHR 0x27] @ ''float'' @ [CHR 0x27] @ '' object does not support item assignment''
      | JBool _ \<Rightarrow> [CHR 0x27] @ ''bool'' @ [CHR 0x27] @ '' object does not support item assignment''
      | _ \<Rightarrow> [])"

definition extract_document ::
  "(string \<Rightarrow> json option) \<Rightarrow> env \<Rightarrow> database \<Rightarrow> string \<Rightarrow> string \<Rightarrow> dict \<times> database" where
  \<comment> \<open>the returned object and the database afterwards; \<open>debug\<close> only prints and is left out\<close>
  "extract_document loads env db image_path index_type =
     (case encode_image env image_path of
        Inl e \<Rightarrow> (error_result env image_path index_type (''Image encoding error: '' @ e), db)
      | Inr encoded \<Rightarrow>
         (case post env (prompt_text index_type) (''data:image/jpeg;base64,'' @ encoded) of
            RequestException e \<Rightarrow>
              (error_result env image_path index_type (''Request error: '' @ e), db)
          | OtherException e \<Rightarrow>
              (error_result env image_path index_type (''Unexpected error: '' @ e), db)
          | NoChoices \<Rightarrow>
              (error_result env image_path index_type ''No response content found'', db)
          | Content content \<Rightarrow>
             (case extract_json_from_response loads content of
                JNull \<Rightarrow> (parsing_error_result env image_path index_type content, db)
              | JObj parsed \<Rightarrow>
                 (let json_data =
                        setitem (setitem (setitem parsed
                          ''source_path'' (JStr image_path))
                          ''processed_at'' (JStr (now env)))
                          ''index_type'' (JStr index_type)
                  in case persist env db image_path index_type json_data of
                       Inr db' \<Rightarrow> (json_data, db')
                     | Inl db_error \<Rightarrow>
                         (setitem json_data ''database_error'' (JStr (str_error env db_error)),
                          db))
              | v \<Rightarrow>
                 (error_result env image_path index_type
                    (''Unexpected error: '' @ item_assignment_error v), db))))"

section \<open>The Batch Driver\<close>

record batch_info_t =
  processed_at :: string
  total_index1_docs :: nat
  total_index2_docs :: nat
  total_docs :: nat

record summary_t =
  index1_successful :: nat
  index1_failed :: nat
  index2_successful :: nat
  index2_failed :: nat

record results_t =
  batch_info :: batch_info_t
  index1_results :: "dict list"
  index2_results :: "dict list"
  summary :: summary_t

text \<open>
  The state of a run: the \<open>results\<close> dictionary, the database, the calls of
  \<open>extract_document\<close> made so far (path and index type), and whether an exception has
  left \<open>process_batch_documents\<close>. The function returns \<open>results\<close> to its caller when
  \<open>raised\<close> is false. Printing, sleeping and the summary file (written inside its own
  \<open>try\<close>) are left out.
\<close>

record run =
  results :: results_t
  db :: database
  calls :: "(string \<times> string) list"
  raised :: bool

definition path_join :: "string \<Rightarrow> string \<Rightarrow> string" where
  \<comment> \<open>\<open>os.path.join(folder, f)\<close>\<close>
  "path_join folder f =
     (if startswith f ''/'' then f
      else if folder = [] \<or> endswith folder ''/'' then folder @ f
      else folder @ ''/'' @ f)"

definition is_image :: "string \<Rightarrow> bool" where
  "is_image f = endswith_any (lower f) [''.jpg'', ''.jpeg'', ''.png'']"

definition list_files :: "env \<Rightarrow> string \<Rightarrow> string list option" where
  \<comment> \<open>\<open>[os.path.join(folder, f) for f in os.listdir(folder) if f.lower().endswith(...)]\<close>;
      \<open>None\<close> when \<open>os.listdir\<close> raises\<close>
  "list_files env folder =
     (case listdir env folder of
        None \<Rightarrow> None
      | Some names \<Rightarrow> Some (map (path_join folder) (filter is_image names)))"

definition failed :: "dict \<Rightarrow> bool" where
  \<comment> \<open>\<open>"error" in result or result.get("parsing_error")\<close>\<close>
  "failed result = (has_key ''error'' result \<or> truthy (get result ''parsing_error''))"

definition has_len :: "json \<Rightarrow> bool" where
  \<comment> \<open>whether \<open>len(x)\<close> is defined; it raises \<open>TypeError\<close> otherwise\<close>
  "has_len x = (case x of JArr _ \<Rightarrow> True | JObj _ \<Rightarrow> True | JStr _ \<Rightarrow> True | _ \<Rightarrow> False)"

definition append_result :: "string \<Rightarrow> dict \<Rightarrow> results_t \<Rightarrow> results_t" where
  "append_result index_type result r =
     (if index_type = ''INDEX_1''
      then r\<lparr>index1_results := index1_results r @ [result]\<rparr>
      else r\<lparr>index2_results := index2_results r @ [result]\<rparr>)"

definition count_failed :: "string \<Rightarrow> results_t \<Rightarrow> results_t" where
  "count_failed index_type r =
     (if index_type = ''INDEX_1''
      then r\<lparr>summary := (summary r)\<lparr>index1_failed := index1_failed (summary r) + 1\<rparr>\<rparr>
      else r\<lparr>summary := (summary r)\<lparr>index2_failed := index2_failed (summary r) + 1\<rparr>\<rparr>)"

definition count_successful :: "string \<Rightarrow> results_t \<Rightarrow> results_t" where
  "count_successful index_type r =
     (if index_type = ''INDEX_1''
      then r\<lparr>summary := (summary r)\<lparr>index1_successful := index1_successful (summary r) + 1\<rparr>\<rparr>
      else r\<lparr>summary := (summary r)\<lparr>index2_successful := index2_successful (summary r) + 1\<rparr>\<rparr>)"

fun process_files ::
  "(string \<Rightarrow> json option) \<Rightarrow> env \<Rightarrow> string \<Rightarrow> string list \<Rightarrow> run \<Rightarrow> run" where
  \<comment> \<open>the loop over one folder's files; the source writes it twice, once with
      \<open>"INDEX_1"\<close> and the \<open>index1\<close> keys and once with \<open>"INDEX_2"\<close> and the \<open>index2\<close> keys.
      In the success branch \<open>len(result.get('entries', []))\<close> is evaluated after the
      counter has been incremented\<close>
  "process_files loads env index_type [] st = st"
| "process_files loads env index_type (path # rest) st =
     (case extract_document loads env (db st) path index_type of
        (result, db') \<Rightarrow>
          (let st1 = st\<lparr>results := append_result index_type result (results st),
                        db := db',
                        calls := calls st @ [(path, index_type)]\<rparr>
           in if failed result
              then process_files loads env index_type rest
                     (st1\<lparr>results := count_failed index_type (results st1)\<rparr>)
              else if has_len (get_default result ''entries'' (JArr []))
              then process_files loads env index_type rest
                     (st1\<lparr>results := count_successful index_type (results st1)\<rparr>)
              else st1\<lparr>results := count_successful index_type (results st1),
                       raised := True\<rparr>))"

definition initial_results :: "env \<Rightarrow> results_t" where
  "initial_results env =
     \<lparr>batch_info = \<lparr>processed_at = now env, total_index1_docs = 0,
                     total_index2_docs = 0, total_docs = 0\<rparr>,
      index1_results = [],
      index2_results = [],
      summary = \<lparr>index1_successful = 0, index1_failed = 0,
                  index2_successful = 0, index2_failed = 0\<rparr>\<rparr>"

definition process_batch_documents ::
  "(string \<Rightarrow> json option) \<Rightarrow> env \<Rightarrow> database \<Rightarrow> string \<Rightarrow> string \<Rightarrow> run" where
  "process_batch_documents loads env db0 index1_folder index2_folder =
     (let st0 = \<lparr>results = initial_results env, db = db0, calls = [], raised = False\<rparr>
      in case list_files env index1_folder of
           None \<Rightarrow> st0
         | Some listed1 \<Rightarrow>
            (case list_files env index2_folder of
               None \<Rightarrow> st0
             | Some listed2 \<Rightarrow>
                (let index1_files = sort listed1;
                     index2_files = sort listed2;
                     st1 = st0\<lparr>results := (results st0)\<lparr>batch_info :=
                             (batch_info (results st0))
                               \<lparr>total_index1_docs := length index1_files,
                                total_index2_docs := length index2_files,
                                total_docs := length index1_files + length index2_files\<rparr>\<rparr>\<rparr>;
                     st2 = process_files loads env ''INDEX_1'' index1_files st1
                 in if raised st2 then st2
                    else process_files loads env ''INDEX_2'' index2_files st2)))"

section \<open>Auxiliary notions for the statements\<close>


definition empty_database :: database where
  "empty_database =
     \<lparr>documents = [], index1_entries = [], index2_entries = [], last_document_id = 0\<rparr>"

definition unreadable_env :: env where
  \<comment> \<open>a world in which no directory can be listed\<close>
  "unreadable_env =
     \<lparr>now = ''2025-09-10T00:00:00'', encode_image = (\<lambda>p. Inl ''No such file''),
      post = (\<lambda>p i. NoChoices), listdir = (\<lambda>d. None),
      engine_fault = (\<lambda>p k. False), str_error = (\<lambda>e. ''database error'')\<rparr>"

definition reply_env :: "string \<Rightarrow> env" where
  \<comment> \<open>a world with readable images, a working database engine, two small folders and a
      server that answers every request with the same text\<close>
  "reply_env content =
     \<lparr>now = ''2025-09-10T00:00:00'',
      encode_image = (\<lambda>p. Inr ''QUJD''),
      post = (\<lambda>p i. Content content),
      listdir = (\<lambda>d. if d = ''/data/index1/'' then Some [''b.png'', ''a.jpg'', ''c.jpeg'']
                      else if d = ''/data/index2/'' then Some [''z.PNG'', ''readme.md'']
                      else None),
      engine_fault = (\<lambda>p k. False),
      str_error = (\<lambda>e. ''database error'')\<rparr>"

definition entry_keys :: "string \<Rightarrow> string list" where
  "entry_keys index_type = (if index_type = ''INDEX_1'' then index1_keys else index2_keys)"


definition entries_table :: "string \<Rightarrow> database \<Rightarrow> row list" where
  \<comment> \<open>the table that receives the entries of a document of this index type\<close>
  "entries_table index_type d = (if index_type = ''INDEX_1'' then index1_entries d else index2_entries d)"

definition other_table :: "string \<Rightarrow> database \<Rightarrow> row list" where
  "other_table index_type d = (if index_type = ''INDEX_1'' then index2_entries d else index1_entries d)"

definition document_row :: "nat \<Rightarrow> dict \<Rightarrow> string \<Rightarrow> row" where
  "document_row document_id json_data image_path =
     [(''id'', JInt (int document_id)),
      (''document_type'', get json_data ''document_type''),
      (''year'', get json_data ''year''),
      (''office_location'', get json_data ''office_location''),
      (''confidence'', get json_data ''confidence''),
      (''extraction_notes'', get json_data ''extraction_notes''),
      (''source_path'', JStr image_path)]"

definition append_entries :: "string \<Rightarrow> row list \<Rightarrow> database \<Rightarrow> database" where
  "append_entries index_type rows tx =
     (if index_type = ''INDEX_1''
      then tx\<lparr>index1_entries := index1_entries tx @ rows\<rparr>
      else tx\<lparr>index2_entries := index2_entries tx @ rows\<rparr>)"

definition parsed_reply ::
  "(string \<Rightarrow> json option) \<Rightarrow> env \<Rightarrow> string \<Rightarrow> string \<Rightarrow> json option" where
  \<comment> \<open>what \<open>extract_json_from_response\<close> returned for this file, when the image could be
      read and the server's reply had a content\<close>
  "parsed_reply loads env image_path index_type =
     (case encode_image env image_path of
        Inl e \<Rightarrow> None
      | Inr encoded \<Rightarrow>
         (case post env (prompt_text index_type) (''data:image/jpeg;base64,'' @ encoded) of
            Content content \<Rightarrow> Some (extract_json_from_response loads content)
          | _ \<Rightarrow> None))"

definition with_metadata :: "env \<Rightarrow> string \<Rightarrow> string \<Rightarrow> dict \<Rightarrow> dict" where
  \<comment> \<open>the parsed object after the three assignments of \<open>source_path\<close>, \<open>processed_at\<close>
      and \<open>index_type\<close>\<close>
  "with_metadata env image_path index_type parsed =
     setitem (setitem (setitem parsed
       ''source_path'' (JStr image_path))
       ''processed_at'' (JStr (now env)))
       ''index_type'' (JStr index_type)"

definition kind_a_object :: dict where
  \<comment> \<open>a kind-A reply without entries\<close>
  "kind_a_object = [(''document_type'', JStr ''INDEX_1''), (''entries'', JArr [])]"

definition kind_b_object :: dict where
  \<comment> \<open>a kind-B reply with two entries; the second spells the field name in lower case\<close>
  "kind_b_object =
     [(''document_type'', JStr ''INDEX_2''),
      (''entries'',
       JArr [JObj [(''Pargana/Town/Thana'', JStr ''Ausgram'')],
             JObj [(''pargana/town/thana'', JStr ''Katwa'')]])]"


section \<open>Sample replies, evaluated\<close>

text \<open>
  Three replies that carry the object \<open>{"a":1}\<close>: alone, in a fenced block between two
  lines of prose, and on a line of its own between two lines of prose.
\<close>

lemma strip_bare_object: \<open>strip ''{"a":1}'' = ''{"a":1}''\<close>
  by (simp add: strip_def isspace_def)

lemma loads_bare_object: \<open>json_loads ''{"a":1}'' = Some (JObj [(''a'', JInt 1)])\<close>
  by code_simp

lemma loads_prose_fenced:
  \<open>json_loads (strip (''Here you go:\<newline>'' @ ''```'' @ ''json'' @ ''\<newline>'' @ ''{"a":1}''
      @ ''\<newline>'' @ ''```'' @ ''\<newline>Thanks'')) = None\<close>
  by code_simp

lemma loads_prose_lines:
  \<open>json_loads (strip ''Sure:\<newline>{"a":1}\<newline>Bye.'') = None\<close>
  by code_simp

lemma search_prose_lines:
  \<open>re_search ''Sure:\<newline>{"a":1}\<newline>Bye.'' = None\<close>
  by code_simp

lemma split_prose_lines:
  \<open>split_lines (strip ''Sure:\<newline>{"a":1}\<newline>Bye.'')
     = [''Sure:''] @ split_lines ''{"a":1}'' @ [''Bye.'']\<close>
  by code_simp

lemma search_prose_fenced:
  \<open>re_search (''Here you go:\<newline>'' @ ''```'' @ ''json'' @ ''\<newline>'' @ ''{"a":1}''
      @ ''\<newline>'' @ ''```'' @ ''\<newline>Thanks'') = Some ''{"a":1}''\<close>
  by code_simp

lemma line_range_prose_lines:
  \<open>line_range ''Sure:\<newline>{"a":1}\<newline>Bye.'' = Some ''{"a":1}''\<close>
  by code_simp

section \<open>The Response Extractor: order of the strategies\<close>

text \<open>
  Claim C6. The three strategies run in the order direct parse, fenced block, line scan,
  and the first that succeeds ends the function: when the direct parse of the trimmed
  text succeeds, it is the only strategy run and its value is returned; the fenced block
  is returned only when the direct parse has failed; the line scan is run only when
  both have failed. For the text \<open>{"a":1}\<close> the result is the object, by the direct parse
  alone (the witness).
\<close>

theorem tiers_in_strict_order:
  "(\<forall>v. loads (strip content) = Some v \<longrightarrow>
        extract_json_trace loads content = ([Direct], v))
   \<and> (\<forall>g v. loads (strip content) = None \<longrightarrow> re_search content = Some g \<longrightarrow>
        loads g = Some v \<longrightarrow>
        extract_json_trace loads content = ([Direct, Fenced], v))
   \<and> (loads (strip content) = None \<longrightarrow>
        (re_search content = None \<or> (\<exists>g. re_search content = Some g \<and> loads g = None)) \<longrightarrow>
        extract_json_trace loads content =
          ([Direct, Fenced, LineScan],
           (case line_range content of
              None \<Rightarrow> JNull
            | Some json_text \<Rightarrow> (case loads json_text of Some v \<Rightarrow> v | None \<Rightarrow> JNull))))"
  by (auto simp: extract_json_trace_def)

theorem tiers_in_strict_order_witness:
  \<open>extract_json_trace json_loads ''{"a":1}'' = ([Direct], JObj [(''a'', JInt 1)])
   \<and> extract_json_trace json_loads
       (''Here you go:\<newline>'' @ ''```'' @ ''json'' @ ''\<newline>'' @ ''{"a":1}''
          @ ''\<newline>'' @ ''```'' @ ''\<newline>Thanks'')
     = ([Direct, Fenced], JObj [(''a'', JInt 1)])
   \<and> extract_json_trace json_loads ''Sure:\<newline>{"a":1}\<newline>Bye.''
     = ([Direct, Fenced, LineScan], JObj [(''a'', JInt 1)])\<close>
proof -
  have h: \<open>json_loads (strip ''{"a":1}'') = Some (JObj [(''a'', JInt 1)])\<close>
    by (simp only: strip_bare_object loads_bare_object)
  from tiers_in_strict_order [of json_loads \<open>''{"a":1}''\<close>] h
  have r1: \<open>extract_json_trace json_loads ''{"a":1}'' = ([Direct], JObj [(''a'', JInt 1)])\<close>
    by blast
  from tiers_in_strict_order [of json_loads
         \<open>''Here you go:\<newline>'' @ ''```'' @ ''json'' @ ''\<newline>'' @ ''{"a":1}''
            @ ''\<newline>'' @ ''```'' @ ''\<newline>Thanks''\<close>]
    loads_prose_fenced search_prose_fenced loads_bare_object
  have r2: \<open>extract_json_trace json_loads
       (''Here you go:\<newline>'' @ ''```'' @ ''json'' @ ''\<newline>'' @ ''{"a":1}''
          @ ''\<newline>'' @ ''```'' @ ''\<newline>Thanks'')
     = ([Direct, Fenced], JObj [(''a'', JInt 1)])\<close>
    by blast
  from tiers_in_strict_order [of json_loads \<open>''Sure:\<newline>{"a":1}\<newline>Bye.''\<close>]
    loads_prose_lines search_prose_lines
  have \<open>extract_json_trace json_loads ''Sure:\<newline>{"a":1}\<newline>Bye.''
     = ([Direct, Fenced, LineScan],
        (case line_range ''Sure:\<newline>{"a":1}\<newline>Bye.'' of
           None \<Rightarrow> JNull
         | Some json_text \<Rightarrow>
             (case json_loads json_text of Some v \<Rightarrow> v | None \<Rightarrow> JNull)))\<close>
    by blast
  then have r3: \<open>extract_json_trace json_loads ''Sure:\<newline>{"a":1}\<newline>Bye.''
     = ([Direct, Fenced, LineScan], JObj [(''a'', JInt 1)])\<close>
    by (simp only: line_range_prose_lines loads_bare_object option.case)
  from r1 r2 r3 show ?thesis by blast
qed

section \<open>The Response Extractor: what it returns\<close>




section \<open>The Response Extractor: recovering an embedded object\<close>

lemma strip_padded:
  assumes "\<forall>c\<in>set w1. isspace c" "\<forall>c\<in>set w2. isspace c"
      and "s \<noteq> []" "\<not> isspace (hd s)" "\<not> isspace (last s)"
  shows "strip (w1 @ s @ w2) = s"
proof -
  have a: "dropWhile isspace (w1 @ s @ w2) = s @ w2"
    using assms(1,3,4) by (cases s) (simp_all add: dropWhile_append3)
  have b: "dropWhile isspace (rev w2 @ rev s) = rev s"
    using assms(2,3,5) by (cases s rule: rev_cases) (simp_all add: dropWhile_append3)
  show ?thesis by (simp add: strip_def a b)
qed

lemma brace_not_space:
  "\<not> isspace CHR ''{''" "\<not> isspace CHR ''}''" "\<not> isspace CHR ''`''"
  by (simp_all add: isspace_def)

lemma extract_direct:
  "loads (strip content) = Some v \<Longrightarrow> extract_json_from_response loads content = v"
  by (simp add: extract_json_from_response_def extract_json_trace_def)

lemma object_bare:
  assumes j: "j = CHR ''{'' # body @ ''}''" and wf: "loads j = Some v"
      and w: "\<forall>c\<in>set (w1 @ w2). isspace c"
  shows "extract_json_from_response loads (w1 @ j @ w2) = v"
proof -
  have "strip (w1 @ j @ w2) = j"
    by (rule strip_padded) (use w j in \<open>simp_all add: brace_not_space\<close>)
  with wf show ?thesis by (simp add: extract_direct)
qed


lemma lower_char_fixed:
  assumes "(of_char t :: nat) < 65 \<or> (90 < (of_char t :: nat) \<and> (of_char t :: nat) < 97)
             \<or> (122 < (of_char t :: nat) \<and> (of_char t :: nat) < 192)"
  shows "(lower_char c = t) = (c = t)"
proof (cases "(65 \<le> (of_char c :: nat) \<and> (of_char c :: nat) \<le> 90)
                \<or> (192 \<le> (of_char c :: nat) \<and> (of_char c :: nat) \<le> 222 \<and> (of_char c :: nat) \<noteq> 215)")
  case False
  then have "lower_char c = c" by (auto simp: lower_char_def Let_def)
  then show ?thesis by simp
next
  case True
  then have l: "lower_char c = char_of ((of_char c :: nat) + 32)"
    by (simp add: lower_char_def Let_def)
  have "(of_char (lower_char c) :: nat) = (of_char c + 32) mod 256"
    unfolding l by (simp add: of_char_of)
  moreover have "((of_char c :: nat) + 32) mod 256 = of_char c + 32"
    using True by auto
  ultimately have "(of_char (lower_char c) :: nat) = of_char c + 32" by simp
  with True assms have "(of_char (lower_char c) :: nat) \<noteq> of_char t" by auto
  then have "lower_char c \<noteq> t" by auto
  moreover from True assms have "c \<noteq> t" by auto
  ultimately show ?thesis by simp
qed

lemma lower_char_backtick [simp]: "(lower_char c = CHR ''`'') = (c = CHR ''`'')"
  by (rule lower_char_fixed) simp

lemma lower_char_lbrace [simp]: "(lower_char c = CHR ''{'') = (c = CHR ''{'')"
  by (rule lower_char_fixed) simp

lemma lower_char_rbrace [simp]: "(lower_char c = CHR ''}'') = (c = CHR ''}'')"
  by (rule lower_char_fixed) simp

lemma lower_char_marks [simp]:
  "lower_char CHR ''`'' = CHR ''`''" "lower_char CHR ''{'' = CHR ''{''"
  "lower_char CHR ''}'' = CHR ''}''"
  by (simp_all add: lower_char_def)

lemma lower_char_space: "isspace c \<Longrightarrow> lower_char c = c"
  by (auto simp: isspace_def lower_char_def Let_def)

lemma lit_mismatch:
  "p \<noteq> [] \<Longrightarrow> s = [] \<or> lower_char (hd s) \<noteq> lower_char (hd p) \<Longrightarrow> lit p k s = None"
  by (cases p; cases s) (auto simp: lit_def lower_def)

lemma lit_match:
  "lower t = lower p \<Longrightarrow> lit p k (t @ s) = k s"
proof -
  assume a: "lower t = lower p"
  then have "length t = length p" by (metis length_map lower_def)
  with a show ?thesis by (simp add: lit_def)
qed

lemma fence_match_no_backtick: "c \<noteq> CHR ''`'' \<Longrightarrow> fence_match (c # s) = None"
  unfolding fence_match_def by (rule lit_mismatch) simp_all

lemma re_search_skip:
  "CHR ''`'' \<notin> set pre \<Longrightarrow> s \<noteq> [] \<Longrightarrow> re_search (pre @ s) = re_search s"
  by (induction pre) (auto simp: fence_match_no_backtick)

lemma ws_star_greedy:
  assumes "\<forall>c\<in>set w. isspace c" and "k s = Some r" and "s = [] \<or> \<not> isspace (hd s)"
  shows "ws_star k (w @ s) = Some r"
  using assms
proof (induction w)
  case Nil
  then show ?case by (cases s) auto
next
  case (Cons c w)
  then show ?case by simp
qed

lemma ws_star_fence_fail:
  assumes "dropWhile isspace s \<noteq> []" "hd (dropWhile isspace s) \<noteq> CHR ''`''"
  shows "ws_star (lit ''```'' k) s = None"
  using assms
proof (induction s)
  case Nil
  then show ?case by simp
next
  case (Cons c s)
  show ?case
  proof (cases "isspace c")
    case True
    then have "c \<noteq> CHR ''`''" using brace_not_space by auto
    then have "lit ''```'' k (c # s) = None"
      by (intro lit_mismatch) simp_all
    moreover from Cons True have "ws_star (lit ''```'' k) s = None" by simp
    ultimately show ?thesis using True by simp
  next
    case False
    with Cons.prems have "c \<noteq> CHR ''`''" by simp
    then have "lit ''```'' k (c # s) = None"
      by (intro lit_mismatch) simp_all
    with False show ?thesis by simp
  qed
qed

lemma first_nonspace_not_backtick:
  "CHR ''`'' \<notin> set u \<Longrightarrow>
   dropWhile isspace (u @ CHR ''}'' # t) \<noteq> []
   \<and> hd (dropWhile isspace (u @ CHR ''}'' # t)) \<noteq> CHR ''`''"
  by (induction u) (auto simp: brace_not_space)

lemma lazy_dot_first:
  assumes "\<forall>i<length u. k (drop i u @ t) = None" and "k t = Some r"
  shows "lazy_dot k (u @ t) = Some r"
  using assms
proof (induction u)
  case Nil
  then show ?case by (cases t) simp_all
next
  case (Cons c u)
  from Cons.prems(1) have h0: "k ((c # u) @ t) = None" by force
  from Cons.prems(1) have "\<forall>i<length u. k (drop i u @ t) = None" by force
  with Cons.IH Cons.prems(2) have "lazy_dot k (u @ t) = Some r" by simp
  with h0 show ?case by simp
qed


lemma fence_match_fenced:
  assumes j: "j = CHR ''{'' # body @ ''}''" and nb: "CHR ''`'' \<notin> set body"
      and tag: "tag = [] \<or> lower tag = lower ''json''"
      and w1: "\<forall>c\<in>set w1. isspace c" and w2: "\<forall>c\<in>set w2. isspace c"
  shows "fence_match (''```'' @ tag @ w1 @ j @ w2 @ ''```'' @ rest) = Some j"
proof -
  define g where "g = j @ w2 @ ''```'' @ rest"
  define fin where
    "fin = (\<lambda>r. ws_star (lit ''```'' (\<lambda>_. Some (take (length g - length r) g))) r)"
  define k2 where "k2 = lit ''}'' fin"
  define K :: "string cont" where
    "K = ws_star (\<lambda>g. lit ''{'' (lazy_dot (lit ''}'' (\<lambda>r.
           ws_star (lit ''```'' (\<lambda>_. Some (take (length g - length r) g))) r))) g)"
  let ?tail = "w2 @ ''```'' @ rest"
  have tk: "take (length g - length ?tail) g = j"
    by (simp add: g_def)
  have a: "fin ?tail = Some j"
    unfolding fin_def
  proof (rule ws_star_greedy [OF w2])
    show "lit ''```'' (\<lambda>_. Some (take (length g - length ?tail) g)) (''```'' @ rest) = Some j"
      by (simp only: lit_match [OF refl] tk)
    show "''```'' @ rest = [] \<or> \<not> isspace (hd (''```'' @ rest))"
      by (simp add: brace_not_space)
  qed
  have b: "k2 (''}'' @ ?tail) = Some j"
    unfolding k2_def by (simp only: lit_match [OF refl] a)
  have c: "\<forall>i<length body. k2 (drop i body @ ''}'' @ ?tail) = None"
  proof (intro allI impI)
    fix i assume i: "i < length body"
    then obtain c u where cu: "drop i body = c # u"
      by (cases "drop i body") simp_all
    have "set u \<subseteq> set body"
      by (metis cu set_drop_subset set_subset_Cons subset_trans)
    with nb have nu: "CHR ''`'' \<notin> set u" by auto
    show "k2 (drop i body @ ''}'' @ ?tail) = None"
    proof (cases "c = CHR ''}''")
      case False
      then show ?thesis
        unfolding k2_def cu by (intro lit_mismatch) simp_all
    next
      case True
      have "k2 (drop i body @ ''}'' @ ?tail) = fin (u @ ''}'' @ ?tail)"
        unfolding k2_def cu True using lit_match [of "''}''" "''}''" fin "u @ ''}'' @ ?tail"]
        by simp
      also have "\<dots> = None"
        unfolding fin_def
        by (rule ws_star_fence_fail)
           (use first_nonspace_not_backtick [OF nu, of ?tail] in simp_all)
      finally show ?thesis .
    qed
  qed
  have d: "lazy_dot k2 (body @ ''}'' @ ?tail) = Some j"
    by (rule lazy_dot_first [OF c b])
  have e: "lit ''{'' (lazy_dot k2) g = Some j"
    using lit_match [of "''{''" "''{''" "lazy_dot k2" "body @ ''}'' @ ?tail"] d
    by (simp add: g_def j)
  have f: "K (w1 @ g) = Some j"
    unfolding K_def
  proof (rule ws_star_greedy [OF w1])
    show "lit ''{'' (lazy_dot (lit ''}'' (\<lambda>r.
            ws_star (lit ''```'' (\<lambda>_. Some (take (length g - length r) g))) r))) g = Some j"
      using e by (simp add: k2_def fin_def)
    show "g = [] \<or> \<not> isspace (hd g)"
      by (simp add: g_def j brace_not_space)
  qed
  have h: "opt (lit ''json'') K (tag @ w1 @ g) = Some j"
  proof (cases "tag = []")
    case False
    with tag have "lower tag = lower ''json''" by simp
    then have "lit ''json'' K (tag @ w1 @ g) = K (w1 @ g)"
      by (rule lit_match)
    with f show ?thesis by (simp add: opt_def)
  next
    case True
    have hd: "lower_char (hd (w1 @ g)) \<noteq> lower_char CHR ''j''"
    proof (cases w1)
      case Nil
      then show ?thesis by (simp add: g_def j) (simp add: lower_char_def)
    next
      case (Cons c w)
      with w1 have sp: "isspace c" by simp
      then have "c \<noteq> CHR ''j''" by (auto simp: isspace_def)
      with sp Cons show ?thesis by (simp add: lower_char_space) (simp add: lower_char_def)
    qed
    have "lit ''json'' K (w1 @ g) = None"
      by (rule lit_mismatch) (use hd in \<open>simp_all add: g_def j\<close>)
    with f True show ?thesis by (simp add: opt_def)
  qed
  have "fence_match (''```'' @ tag @ w1 @ g) = opt (lit ''json'') K (tag @ w1 @ g)"
    unfolding fence_match_def K_def by (rule lit_match) simp
  with h show ?thesis by (simp add: g_def)
qed

lemma re_search_fenced:
  assumes j: "j = CHR ''{'' # body @ ''}''" and nb: "CHR ''`'' \<notin> set body"
      and np: "CHR ''`'' \<notin> set pre"
      and tag: "tag = [] \<or> lower tag = lower ''json''"
      and w1: "\<forall>c\<in>set w1. isspace c" and w2: "\<forall>c\<in>set w2. isspace c"
  shows "re_search (pre @ ''```'' @ tag @ w1 @ j @ w2 @ ''```'' @ rest) = Some j"
proof -
  let ?s = "''```'' @ tag @ w1 @ j @ w2 @ ''```'' @ rest"
  have "re_search (pre @ ?s) = re_search ?s"
    by (rule re_search_skip [OF np]) simp
  also have "\<dots> = Some j"
    using fence_match_fenced [OF j nb tag w1 w2, of rest] by simp
  finally show ?thesis .
qed


lemma split_lines_nonempty [simp]: "split_lines s \<noteq> []"
  by (induction s) (auto split: list.splits)

lemma join_lines_Cons:
  "join_lines (l # ls) = (if ls = [] then l else l @ CHR 0x0A # join_lines ls)"
  by (cases ls) simp_all

lemma join_split_lines: "join_lines (split_lines s) = s"
proof (induction s)
  case Nil
  then show ?case by simp
next
  case (Cons c s)
  obtain l ls where ls: "split_lines s = l # ls"
    by (cases "split_lines s") simp_all
  with Cons show ?case by (simp add: join_lines_Cons split: if_splits)
qed

lemma hd_split_lines:
  "c \<noteq> CHR 0x0A \<Longrightarrow> hd (split_lines (c # s)) = c # hd (split_lines s)"
  by (cases "split_lines s") simp_all

lemma last_split_lines:
  "c \<noteq> CHR 0x0A \<Longrightarrow> last (split_lines (s @ [c])) = last (split_lines s) @ [c]"
proof (induction s)
  case Nil
  then show ?case by simp
next
  case (Cons d s)
  obtain l ls where a: "split_lines s = l # ls"
    by (cases "split_lines s") simp_all
  obtain l' ls' where b: "split_lines (s @ [c]) = l' # ls'"
    by (cases "split_lines (s @ [c])") simp_all
  have e: "(ls' = []) = (ls = [])"
  proof -
    have "length (split_lines (t @ [c])) = length (split_lines t)" for t
      using Cons.prems by (induction t) (auto split: list.splits)
    from this [of s] a b have "length ls' = length ls" by simp
    then show ?thesis by (cases ls; cases ls'; simp)
  qed
  from Cons a b e show ?case by (auto split: if_splits)
qed

lemma strip_starts:
  assumes "\<not> isspace c"
  shows "startswith (strip (c # l)) [c]"
proof -
  have "dropWhile isspace (rev l @ [c]) \<noteq> [] \<and> last (dropWhile isspace (rev l @ [c])) = c"
    using assms by (induction "rev l" arbitrary: l) (auto simp: dropWhile_append)
  then obtain t where "dropWhile isspace (rev l @ [c]) = t @ [c]"
    by (metis append_butlast_last_id)
  with assms show ?thesis by (simp add: strip_def startswith_def)
qed

lemma strip_ends:
  assumes "\<not> isspace c"
  shows "endswith (strip (l @ [c])) [c]"
proof -
  have "dropWhile isspace (l @ [c]) \<noteq> [] \<and> last (dropWhile isspace (l @ [c])) = c"
    using assms by (induction l) auto
  then obtain t where t: "dropWhile isspace (l @ [c]) = t @ [c]"
    by (metis append_butlast_last_id)
  with assms show ?thesis by (simp add: strip_def endswith_def)
qed

lemma first_index_append:
  "\<forall>x\<in>set xs. \<not> P x \<Longrightarrow> P y \<Longrightarrow> first_index P (xs @ y # ys) = Some (length xs)"
  by (induction xs) simp_all

lemma last_index_none: "\<forall>x\<in>set zs. \<not> P x \<Longrightarrow> last_index P zs = None"
  by (induction zs) simp_all

lemma last_index_append:
  "\<forall>x\<in>set zs. \<not> P x \<Longrightarrow> P y \<Longrightarrow> last_index P (xs @ y # zs) = Some (length xs)"
  by (induction xs) (simp_all add: last_index_none)

lemma line_range_block:
  assumes l: "split_lines (strip content) = before @ block @ after" and ne: "block \<noteq> []"
      and s: "startswith (strip (hd block)) ''{''" and e: "endswith (strip (last block)) ''}''"
      and b: "\<forall>l\<in>set before. \<not> startswith (strip l) ''{''"
      and a: "\<forall>l\<in>set after. \<not> endswith (strip l) ''}''"
  shows "line_range content = Some (join_lines block)"
proof -
  obtain x xs where bx: "block = x # xs" using ne by (cases block) simp_all
  obtain ys y where by': "block = ys @ [y]" using ne by (cases block rule: rev_cases) simp_all
  have fi: "first_index (\<lambda>line. startswith (strip line) ''{'') (before @ block @ after)
              = Some (length before)"
    using first_index_append [of before "\<lambda>line. startswith (strip line) ''{''" x "xs @ after"]
      b s by (simp add: bx)
  have li: "last_index (\<lambda>line. endswith (strip line) ''}'') (before @ block @ after)
              = Some (length (before @ ys))"
    using last_index_append [of after "\<lambda>line. endswith (strip line) ''}''" y "before @ ys"]
      a e by (simp add: by')
  have dr: "drop (length before) (take (Suc (length (before @ ys))) (before @ block @ after))
              = block"
    by (simp add: by')
  show ?thesis
    unfolding line_range_def l Let_def fi li by (simp only: dr prod.case option.case)
qed

lemma line_range_object:
  assumes j: "j = CHR ''{'' # body @ ''}''"
      and l: "split_lines (strip content) = before @ split_lines j @ after"
      and b: "\<forall>l\<in>set before. \<not> startswith (strip l) ''{''"
      and a: "\<forall>l\<in>set after. \<not> endswith (strip l) ''}''"
  shows "line_range content = Some j"
proof -
  have h: "hd (split_lines j) = CHR ''{'' # hd (split_lines (body @ ''}''))"
    unfolding j by (rule hd_split_lines) simp
  have t: "last (split_lines j) = last (split_lines (CHR ''{'' # body)) @ ''}''"
    using last_split_lines [of "CHR ''}''" "CHR ''{'' # body"] by (simp add: j)
  have "line_range content = Some (join_lines (split_lines j))"
  proof (rule line_range_block [OF l _ _ _ b a])
    show "split_lines j \<noteq> []" by simp
    show "startswith (strip (hd (split_lines j))) ''{''"
      unfolding h by (rule strip_starts) (simp add: brace_not_space)
    show "endswith (strip (last (split_lines j))) ''}''"
      unfolding t by (rule strip_ends) (simp add: brace_not_space)
  qed
  then show ?thesis by (simp only: join_split_lines)
qed


text \<open>
  Claim C1, as amended. The claim as stated fails: prose on the same line as the braces,
  outside a fenced block, defeats all three strategies (the counterexample below). What
  holds for a text \<open>j\<close> from \<open>{\<close> to \<open>}\<close> that \<open>json.loads\<close> accepts with value \<open>v\<close>: the
  function returns \<open>v\<close>
  \<^item> when \<open>j\<close> is surrounded by white space only;
  \<^item> when \<open>j\<close> stands in a fenced block, tagged \<open>json\<close> in any case or untagged, with
    white space only between the fences and \<open>j\<close>, no backquote inside \<open>j\<close> or before the
    block, whatever follows the block, and the text as a whole is not JSON;
  \<^item> when \<open>j\<close> occupies whole lines of the trimmed text, no line before it starts with
    \<open>{\<close> and no line after it ends with \<open>}\<close> (after trimming), the text as a whole is not
    JSON, and no fenced block yields JSON.
\<close>

theorem embedded_object_recovered:
  assumes j: "j = CHR ''{'' # body @ ''}''" and wf: "loads j = Some v"
  shows "((\<forall>c\<in>set (lead @ trail). isspace c) \<longrightarrow>
            extract_json_from_response loads (lead @ j @ trail) = v)
         \<and> (CHR ''`'' \<notin> set (pre @ body) \<longrightarrow>
              tag = [] \<or> lower tag = ''json'' \<longrightarrow>
              (\<forall>c\<in>set (lead @ trail). isspace c) \<longrightarrow>
              loads (strip (pre @ ''```'' @ tag @ lead @ j @ trail @ ''```'' @ rest)) = None \<longrightarrow>
              extract_json_from_response loads
                (pre @ ''```'' @ tag @ lead @ j @ trail @ ''```'' @ rest) = v)
         \<and> (split_lines (strip content) = before @ split_lines j @ after \<longrightarrow>
              (\<forall>l\<in>set before. \<not> startswith (strip l) ''{'') \<longrightarrow>
              (\<forall>l\<in>set after. \<not> endswith (strip l) ''}'') \<longrightarrow>
              loads (strip content) = None \<longrightarrow>
              (\<forall>g. re_search content = Some g \<longrightarrow> loads g = None) \<longrightarrow>
              extract_json_from_response loads content = v)"
proof (intro conjI impI)
  assume "\<forall>c\<in>set (lead @ trail). isspace c"
  then show "extract_json_from_response loads (lead @ j @ trail) = v"
    by (rule object_bare [where loads = loads, OF j wf])
next
  let ?c = "pre @ ''```'' @ tag @ lead @ j @ trail @ ''```'' @ rest"
  assume nb: "CHR ''`'' \<notin> set (pre @ body)" and tag: "tag = [] \<or> lower tag = ''json''"
    and w: "\<forall>c\<in>set (lead @ trail). isspace c" and t1: "loads (strip ?c) = None"
  have lj: "lower ''json'' = ''json''"
    by (simp add: lower_def lower_char_def)
  have "re_search ?c = Some j"
    by (rule re_search_fenced [OF j]) (use nb tag w lj in auto)
  with t1 wf show "extract_json_from_response loads ?c = v"
    by (simp add: extract_json_from_response_def extract_json_trace_def)
next
  assume l: "split_lines (strip content) = before @ split_lines j @ after"
    and b: "\<forall>l\<in>set before. \<not> startswith (strip l) ''{''"
    and a: "\<forall>l\<in>set after. \<not> endswith (strip l) ''}''"
    and t1: "loads (strip content) = None"
    and t2: "\<forall>g. re_search content = Some g \<longrightarrow> loads g = None"
  have lr: "line_range content = Some j"
    by (rule line_range_object [OF j l b a])
  have "(case re_search content of None \<Rightarrow> None | Some g \<Rightarrow> loads g) = None"
    using t2 by (auto split: option.splits)
  with t1 lr wf show "extract_json_from_response loads content = v"
    by (simp add: extract_json_from_response_def extract_json_trace_def)
qed

theorem embedded_object_recovered_witness:
  \<open>extract_json_from_response json_loads ('' '' @ ''{"a":1}'' @ ''\<newline>'')
     = JObj [(''a'', JInt 1)]
   \<and> extract_json_from_response json_loads
       (''Here you go:\<newline>'' @ ''```'' @ ''json'' @ ''\<newline>'' @ ''{"a":1}''
          @ ''\<newline>'' @ ''```'' @ ''\<newline>Thanks'')
     = JObj [(''a'', JInt 1)]
   \<and> extract_json_from_response json_loads ''Sure:\<newline>{"a":1}\<newline>Bye.''
     = JObj [(''a'', JInt 1)]\<close>
proof -
  have j: \<open>''{"a":1}'' = CHR ''{'' # ''"a":1'' @ ''}''\<close> by simp
  note th = embedded_object_recovered [where loads = json_loads, OF j loads_bare_object]
  have a: "\<forall>c\<in>set ('' '' @ ''\<newline>''). isspace c"
    by (simp add: isspace_def)
  have b1: \<open>CHR ''`'' \<notin> set (''Here you go:\<newline>'' @ ''"a":1'')\<close> by simp
  have b2: "''json'' = [] \<or> lower ''json'' = ''json''"
    by (simp add: lower_def lower_char_def)
  have b3: "\<forall>c\<in>set (''\<newline>'' @ ''\<newline>''). isspace c"
    by (simp add: isspace_def)
  have c1: "\<forall>l\<in>set [''Sure:'']. \<not> startswith (strip l) ''{''"
    by (simp add: startswith_def strip_def isspace_def)
  have c2: "\<forall>l\<in>set [''Bye.'']. \<not> endswith (strip l) ''}''"
    by (simp add: endswith_def strip_def isspace_def)
  have c3: \<open>\<forall>g. re_search ''Sure:\<newline>{"a":1}\<newline>Bye.'' = Some g \<longrightarrow> json_loads g = None\<close>
    unfolding search_prose_lines by simp
  from th [where lead = "'' ''" and trail = "''\<newline>''"] a
  have r1: \<open>extract_json_from_response json_loads ('' '' @ ''{"a":1}'' @ ''\<newline>'')
              = JObj [(''a'', JInt 1)]\<close>
    by blast
  from th [where pre = "''Here you go:\<newline>''" and tag = "''json''" and lead = "''\<newline>''"
             and trail = "''\<newline>''" and rest = "''\<newline>Thanks''"]
    b1 b2 b3 loads_prose_fenced
  have r2: \<open>extract_json_from_response json_loads
       (''Here you go:\<newline>'' @ ''```'' @ ''json'' @ ''\<newline>'' @ ''{"a":1}''
          @ ''\<newline>'' @ ''```'' @ ''\<newline>Thanks'')
     = JObj [(''a'', JInt 1)]\<close>
    by blast
  from th [where content = \<open>''Sure:\<newline>{"a":1}\<newline>Bye.''\<close> and before = "[''Sure:'']"
             and after = "[''Bye.'']"]
    split_prose_lines c1 c2 loads_prose_lines c3
  have r3: \<open>extract_json_from_response json_loads ''Sure:\<newline>{"a":1}\<newline>Bye.''
     = JObj [(''a'', JInt 1)]\<close>
    by blast
  from r1 r2 r3 show ?thesis by blast
qed

text \<open>
  The claim C1 as stated, refuted: \<open>{"a":1}\<close> is a well-formed JSON object, and the text
  \<open>Here is {"a":1} thanks\<close> that contains it gives \<open>None\<close>.
\<close>

theorem prose_on_the_same_line_counterexample:
  \<open>json_loads ''{"a":1}'' = Some (JObj [(''a'', JInt 1)])
   \<and> extract_json_from_response json_loads ''Here is {"a":1} thanks'' = JNull\<close>
  by code_simp

section \<open>The Record Writer\<close>

lemma append_entries_Nil: "append_entries index_type [] tx = tx"
  by (simp add: append_entries_def)

lemma append_entries_append:
  "append_entries index_type rs (append_entries index_type [r] tx)
     = append_entries index_type (r # rs) tx"
  by (simp add: append_entries_def)

lemma insert_entry_Inr:
  "insert_entry index_type tx r = Inr tx' \<Longrightarrow> tx' = append_entries index_type [r] tx"
  by (auto simp: insert_entry_def append_entries_def split: option.splits)

lemma insert_entry_bindable:
  "bind_all (map snd r) = None \<Longrightarrow>
   insert_entry index_type tx r = Inr (append_entries index_type [r] tx)"
  by (simp add: insert_entry_def append_entries_def)

lemma insert_entries_Inr:
  "insert_entries env image_path index_type document_id k es tx = Inr tx' \<Longrightarrow>
   \<exists>ds. es = map JObj ds
        \<and> tx' = append_entries index_type (map (entry_row index_type document_id) ds) tx"
proof (induction es arbitrary: k tx)
  case Nil
  then show ?case by (simp add: append_entries_Nil)
next
  case (Cons entry rest)
  from Cons.prems obtain d where d: "entry = JObj d"
    by (cases entry) simp_all
  from Cons.prems d obtain tx1 where
    t1: "insert_entry index_type tx (entry_row index_type document_id d) = Inr tx1"
    and r: "insert_entries env image_path index_type document_id (Suc k) rest tx1 = Inr tx'"
    by (auto split: if_splits sum.splits)
  from Cons.IH [OF r] obtain ds where ds: "rest = map JObj ds"
    "tx' = append_entries index_type (map (entry_row index_type document_id) ds) tx1"
    by blast
  from insert_entry_Inr [OF t1] ds d show ?case
    by (intro exI [of _ "d # ds"]) (simp add: append_entries_append)
qed

lemma insert_entries_ok:
  assumes "\<forall>i<length ds. \<not> engine_fault env image_path (k + i)"
      and "\<forall>d\<in>set ds. bind_all (map snd (entry_row index_type document_id d)) = None"
  shows "insert_entries env image_path index_type document_id k (map JObj ds) tx
         = Inr (append_entries index_type (map (entry_row index_type document_id) ds) tx)"
  using assms
proof (induction ds arbitrary: k tx)
  case Nil
  then show ?case by (simp add: append_entries_Nil)
next
  case (Cons d ds)
  from Cons.prems(1) have f0: "\<not> engine_fault env image_path k" by force
  from Cons.prems(1) have fs: "\<forall>i<length ds. \<not> engine_fault env image_path (Suc k + i)"
    by force
  from Cons.prems(2) have b: "bind_all (map snd (entry_row index_type document_id d)) = None"
    and bs: "\<forall>d\<in>set ds. bind_all (map snd (entry_row index_type document_id d)) = None"
    by simp_all
  show ?case
    using f0 Cons.IH [OF fs bs] by (simp add: insert_entry_bindable [OF b] append_entries_append)
qed

lemma insert_document_Inr:
  "insert_document db0 [get jd ''document_type'', get jd ''year'', get jd ''office_location'',
        get jd ''confidence'', get jd ''extraction_notes'', JStr image_path] = Inr tx \<Longrightarrow>
   tx = db0\<lparr>documents := documents db0 @ [document_row (Suc (last_document_id db0)) jd image_path],
          last_document_id := Suc (last_document_id db0)\<rparr>"
  by (auto simp: insert_document_def document_row_def document_columns_def
           split: option.splits if_splits)

lemma persist_Inr:
  assumes "persist env db0 image_path index_type json_data = Inr db1"
  shows "\<exists>ds. iterate (get_default json_data ''entries'' (JArr [])) = Inr (map JObj ds)
           \<and> db1 = append_entries index_type
                     (map (entry_row index_type (Suc (last_document_id db0))) ds)
                     (db0\<lparr>documents := documents db0 @
                           [document_row (Suc (last_document_id db0)) json_data image_path],
                         last_document_id := Suc (last_document_id db0)\<rparr>)"
proof -
  from assms obtain tx es where
    i: "insert_document db0 [get json_data ''document_type'', get json_data ''year'',
          get json_data ''office_location'', get json_data ''confidence'',
          get json_data ''extraction_notes'', JStr image_path] = Inr tx"
    and it: "iterate (get_default json_data ''entries'' (JArr [])) = Inr es"
    and e: "insert_entries env image_path index_type (last_document_id tx) 2 es tx = Inr db1"
    unfolding persist_def by (auto split: if_splits sum.splits)
  note tx = insert_document_Inr [OF i]
  from insert_entries_Inr [OF e] obtain ds where "es = map JObj ds"
    "db1 = append_entries index_type (map (entry_row index_type (last_document_id tx)) ds) tx"
    by blast
  with it tx show ?thesis by auto
qed


lemma entry_row_values:
  "map snd (entry_row index_type document_id d)
     = JInt (int document_id) # map (get d) (entry_keys index_type)"
  by (simp add: entry_row_def entry_keys_def index1_columns_def index1_keys_def
        index2_columns_def index2_keys_def)


lemma entry_row_document_id:
  "get (entry_row index_type document_id d) ''document_id'' = JInt (int document_id)"
  by (simp add: entry_row_def get_def)

lemma entries_table_append:
  "entries_table index_type (append_entries index_type rows tx)
     = entries_table index_type tx @ rows"
  "other_table index_type (append_entries index_type rows tx) = other_table index_type tx"
  "documents (append_entries index_type rows tx) = documents tx"
  by (simp_all add: entries_table_def other_table_def append_entries_def)

text \<open>
  Claim C3, as amended. The claim as stated fails: a parsed object without
  \<open>document_type\<close> violates the \<open>NOT NULL\<close> constraint of \<open>init_db.py\<close>, the insertion
  raises, and no row is committed (the counterexample below). What holds: when the engine
  raises no fault, the five top-level fields are values \<open>sqlite3\<close> can bind,
  \<open>document_type\<close> is not null, \<open>entries\<close> is an array of \<open>N\<close> objects (or absent, with
  \<open>N = 0\<close>) whose looked-up fields can be bound, and the next identifier fits 64 bits,
  then exactly one Document row and exactly \<open>N\<close> Entry rows are committed, each Entry row
  carrying the identifier of that Document row, and the other entry table is unchanged.
\<close>

theorem one_document_row_and_n_entry_rows:
  assumes nofault: "\<forall>k. \<not> engine_fault env image_path k"
      and top: "bind_all [get json_data ''document_type'', get json_data ''year'',
                  get json_data ''office_location'', get json_data ''confidence'',
                  get json_data ''extraction_notes''] = None"
      and dt: "\<not> sql_null (get json_data ''document_type'')"
      and es: "get_default json_data ''entries'' (JArr []) = JArr (map JObj ds)"
      and fields: "\<forall>d\<in>set ds. bind_all (map (get d) (entry_keys index_type)) = None"
      and idr: "int (Suc (last_document_id db0)) < 2 ^ 63"
  shows "\<exists>db1. persist env db0 image_path index_type json_data = Inr db1
           \<and> documents db1 = documents db0 @
                [document_row (Suc (last_document_id db0)) json_data image_path]
           \<and> get (document_row (Suc (last_document_id db0)) json_data image_path) ''id''
                = JInt (int (Suc (last_document_id db0)))
           \<and> entries_table index_type db1 = entries_table index_type db0 @
                map (entry_row index_type (Suc (last_document_id db0))) ds
           \<and> length (entries_table index_type db1)
                = length (entries_table index_type db0) + length ds
           \<and> (\<forall>r\<in>set (map (entry_row index_type (Suc (last_document_id db0))) ds).
                 get r ''document_id'' = JInt (int (Suc (last_document_id db0))))
           \<and> other_table index_type db1 = other_table index_type db0"
proof -
  let ?id = "Suc (last_document_id db0)"
  let ?tx = "db0\<lparr>documents := documents db0 @ [document_row ?id json_data image_path],
                last_document_id := ?id\<rparr>"
  let ?db1 = "append_entries index_type (map (entry_row index_type ?id) ds) ?tx"
  have b6: "bind_all [get json_data ''document_type'', get json_data ''year'',
              get json_data ''office_location'', get json_data ''confidence'',
              get json_data ''extraction_notes'', JStr image_path] = None"
    using top by (auto simp: bindable_def split: option.splits)
  have ins: "insert_document db0 [get json_data ''document_type'', get json_data ''year'',
              get json_data ''office_location'', get json_data ''confidence'',
              get json_data ''extraction_notes'', JStr image_path] = Inr ?tx"
    unfolding insert_document_def b6
    using dt by (simp add: document_columns_def get_def sql_null_def document_row_def)
  have idb: "bindable (JInt (int ?id)) = None"
    using idr by (simp add: bindable_def)
  have rows: "\<forall>d\<in>set ds. bind_all (map snd (entry_row index_type ?id d)) = None"
    using fields idb by (simp add: entry_row_values)
  have nf: "\<forall>i<length ds. \<not> engine_fault env image_path (2 + i)"
    using nofault by simp
  have ent: "insert_entries env image_path index_type ?id 2 (map JObj ds) ?tx = Inr ?db1"
    by (rule insert_entries_ok [OF nf rows])
  have p: "persist env db0 image_path index_type json_data = Inr ?db1"
    unfolding persist_def using nofault ins ent es by (simp add: iterate_def)
  have c1: "documents ?db1 = documents db0 @ [document_row ?id json_data image_path]"
    by (simp add: entries_table_append)
  have c2: "get (document_row ?id json_data image_path) ''id'' = JInt (int ?id)"
    by (simp add: document_row_def get_def)
  have c3: "entries_table index_type ?db1 = entries_table index_type db0 @
              map (entry_row index_type ?id) ds"
    by (simp only: entries_table_append) (simp add: entries_table_def)
  have c4: "length (entries_table index_type ?db1)
              = length (entries_table index_type db0) + length ds"
    by (simp only: c3) simp
  have c5: "\<forall>r\<in>set (map (entry_row index_type ?id) ds). get r ''document_id'' = JInt (int ?id)"
    by (auto simp only: entry_row_document_id set_map)
  have c6: "other_table index_type ?db1 = other_table index_type db0"
    by (simp only: entries_table_append) (simp add: other_table_def)
  from p c1 c2 c3 c4 c5 c6 show ?thesis by blast
qed

theorem one_document_row_and_n_entry_rows_witness:
  "(\<exists>db1. persist (reply_env []) empty_database ''/data/index1/a.jpg'' ''INDEX_1''
             kind_a_object = Inr db1
         \<and> length (documents db1) = 1
         \<and> entries_table ''INDEX_1'' db1 = []
         \<and> other_table ''INDEX_1'' db1 = [])
   \<and> (\<exists>db1. persist (reply_env []) empty_database ''/data/index2/z.PNG'' ''INDEX_2''
             kind_b_object = Inr db1
         \<and> length (documents db1) = 1
         \<and> length (entries_table ''INDEX_2'' db1) = 2
         \<and> map (\<lambda>r. get r ''document_id'') (entries_table ''INDEX_2'' db1)
             = [JInt 1, JInt 1]
         \<and> other_table ''INDEX_2'' db1 = [])"
proof -
  have nofault: "\<forall>k. \<not> engine_fault (reply_env []) p k" for p
    by (simp add: reply_env_def)
  have idr: "int (Suc (last_document_id empty_database)) < 2 ^ 63"
    by (simp add: empty_database_def)
  have top: "bind_all [get kind_a_object ''document_type'', get kind_a_object ''year'',
               get kind_a_object ''office_location'', get kind_a_object ''confidence'',
               get kind_a_object ''extraction_notes''] = None"
    by (simp add: kind_a_object_def get_def bindable_def)
  have dt: "\<not> sql_null (get kind_a_object ''document_type'')"
    by (simp add: kind_a_object_def get_def sql_null_def)
  have es: "get_default kind_a_object ''entries'' (JArr []) = JArr (map JObj [])"
    by (simp add: kind_a_object_def get_default_def)
  have fields: "\<forall>d\<in>set []. bind_all (map (get d) (entry_keys ''INDEX_1'')) = None"
    by simp
  from one_document_row_and_n_entry_rows
         [OF nofault [of "''/data/index1/a.jpg''"] top dt es fields idr]
  have a: "\<exists>db1. persist (reply_env []) empty_database ''/data/index1/a.jpg'' ''INDEX_1''
             kind_a_object = Inr db1
         \<and> length (documents db1) = 1
         \<and> entries_table ''INDEX_1'' db1 = []
         \<and> other_table ''INDEX_1'' db1 = []"
    by (auto simp: empty_database_def entries_table_def other_table_def)
  let ?ds = "[[(''Pargana/Town/Thana'', JStr ''Ausgram'')],
              [(''pargana/town/thana'', JStr ''Katwa'')]]"
  have top2: "bind_all [get kind_b_object ''document_type'', get kind_b_object ''year'',
               get kind_b_object ''office_location'', get kind_b_object ''confidence'',
               get kind_b_object ''extraction_notes''] = None"
    by (simp add: kind_b_object_def get_def bindable_def)
  have dt2: "\<not> sql_null (get kind_b_object ''document_type'')"
    by (simp add: kind_b_object_def get_def sql_null_def)
  have es2: "get_default kind_b_object ''entries'' (JArr []) = JArr (map JObj ?ds)"
    by (simp add: kind_b_object_def get_default_def)
  have fields2: "\<forall>d\<in>set ?ds. bind_all (map (get d) (entry_keys ''INDEX_2'')) = None"
    by (simp add: entry_keys_def index2_keys_def get_def bindable_def)
  from one_document_row_and_n_entry_rows
         [OF nofault [of "''/data/index2/z.PNG''"] top2 dt2 es2 fields2 idr]
  have b: "\<exists>db1. persist (reply_env []) empty_database ''/data/index2/z.PNG'' ''INDEX_2''
             kind_b_object = Inr db1
         \<and> length (documents db1) = 1
         \<and> length (entries_table ''INDEX_2'' db1) = 2
         \<and> map (\<lambda>r. get r ''document_id'') (entries_table ''INDEX_2'' db1)
             = [JInt 1, JInt 1]
         \<and> other_table ''INDEX_2'' db1 = []"
    by (auto simp: empty_database_def entries_table_def other_table_def)
  from a b show ?thesis by blast
qed

text \<open>
  The claim C3 as stated, refuted: the reply \<open>{"entries":[]}\<close> is a JSON object whose
  \<open>entries\<close> array has zero items, and processing it leaves the \<open>documents\<close> table empty.
\<close>

theorem missing_document_type_counterexample:
  \<open>json_loads ''{"entries":[]}'' = Some (JObj [(''entries'', JArr [])])
   \<and> documents (snd (extract_document json_loads (reply_env ''{"entries":[]}'')
        empty_database ''/data/index1/a.jpg'' ''INDEX_1'')) = []\<close>
  by code_simp





section \<open>One document: what reaches the database\<close>

lemma get_setitem: "get (setitem d k v) k' = (if k' = k then v else get d k')"
  by (simp add: get_def setitem_def update_conv')

lemma has_key_setitem: "has_key k' (setitem d k v) = (k' = k \<or> has_key k' d)"
  by (auto simp: has_key_def setitem_def dom_update)

lemma extract_document_object:
  assumes "parsed_reply loads env image_path index_type = Some (JObj d)"
  shows "extract_document loads env db0 image_path index_type =
           (case persist env db0 image_path index_type
                   (with_metadata env image_path index_type d) of
              Inr db1 \<Rightarrow> (with_metadata env image_path index_type d, db1)
            | Inl e \<Rightarrow>
                (setitem (with_metadata env image_path index_type d)
                   ''database_error'' (JStr (str_error env e)), db0))"
  using assms
  unfolding parsed_reply_def extract_document_def with_metadata_def
  by (auto split: sum.splits reply.splits simp: Let_def)

lemma extract_document_no_object:
  assumes "\<forall>d. parsed_reply loads env image_path index_type \<noteq> Some (JObj d)"
  shows "snd (extract_document loads env db0 image_path index_type) = db0"
  using assms
  unfolding parsed_reply_def extract_document_def
  by (auto split: sum.splits reply.splits json.splits simp: Let_def)

lemma persist_Inr_documents:
  assumes "persist env db0 image_path index_type json_data = Inr db1"
  shows "documents db1 = documents db0 @
           [document_row (Suc (last_document_id db0)) json_data image_path]"
proof -
  from persist_Inr [OF assms] obtain ds where
    "db1 = append_entries index_type
             (map (entry_row index_type (Suc (last_document_id db0))) ds)
             (db0\<lparr>documents := documents db0 @
                   [document_row (Suc (last_document_id db0)) json_data image_path],
                 last_document_id := Suc (last_document_id db0)\<rparr>)"
    by blast
  then show ?thesis by (simp add: entries_table_append)
qed

text \<open>
  Claim C5, as amended. The claim as stated fails from right to left: the reply \<open>{}\<close>
  is parsed to a JSON object, and no Document row exists afterwards, since the insertion
  raises (the counterexample below). What holds: processing a file adds a Document row
  exactly when the reply was parsed to a JSON object and neither an insertion nor the
  commit raised; the row added is the one of this file; in every other case the database
  is unchanged.
\<close>

theorem document_row_iff_object_persisted:
  assumes "extract_document loads env db0 image_path index_type = (result, db1)"
  shows "(documents db1 \<noteq> documents db0 \<longleftrightarrow>
            (\<exists>d tx. parsed_reply loads env image_path index_type = Some (JObj d)
               \<and> persist env db0 image_path index_type
                    (with_metadata env image_path index_type d) = Inr tx))
         \<and> (documents db1 = documents db0 \<longrightarrow> db1 = db0)
         \<and> (documents db1 \<noteq> documents db0 \<longrightarrow>
              (\<exists>d. documents db1 = documents db0 @
                 [document_row (Suc (last_document_id db0))
                    (with_metadata env image_path index_type d) image_path]))"
proof (cases "\<exists>d. parsed_reply loads env image_path index_type = Some (JObj d)")
  case False
  then have "snd (extract_document loads env db0 image_path index_type) = db0"
    by (intro extract_document_no_object) simp
  with assms have "db1 = db0" by simp
  with False show ?thesis by auto
next
  case True
  then obtain d where d: "parsed_reply loads env image_path index_type = Some (JObj d)"
    by blast
  show ?thesis
  proof (cases "persist env db0 image_path index_type
                  (with_metadata env image_path index_type d)")
    case (Inl e)
    with extract_document_object [OF d, of db0] assms have "db1 = db0" by simp
    with d Inl show ?thesis by auto
  next
    case (Inr tx)
    with extract_document_object [OF d, of db0] assms have "db1 = tx" by simp
    with persist_Inr_documents [OF Inr] d Inr show ?thesis by auto
  qed
qed

theorem document_row_iff_object_persisted_witness:
  \<open>documents (snd (extract_document json_loads
       (reply_env ''{"document_type":"INDEX_1","entries":[]}'') empty_database
       ''/data/index1/a.jpg'' ''INDEX_1'')) \<noteq> documents empty_database
   \<and> (\<exists>d tx. parsed_reply json_loads (reply_env ''{"document_type":"INDEX_1","entries":[]}'')
                ''/data/index1/a.jpg'' ''INDEX_1'' = Some (JObj d)
         \<and> persist (reply_env ''{"document_type":"INDEX_1","entries":[]}'') empty_database
              ''/data/index1/a.jpg'' ''INDEX_1''
              (with_metadata (reply_env ''{"document_type":"INDEX_1","entries":[]}'')
                 ''/data/index1/a.jpg'' ''INDEX_1'' d) = Inr tx)
   \<and> documents (snd (extract_document json_loads (reply_env ''I cannot read this page.'')
         empty_database ''/data/index1/a.jpg'' ''INDEX_1'')) = documents empty_database
   \<and> snd (extract_document json_loads (reply_env ''I cannot read this page.'')
         empty_database ''/data/index1/a.jpg'' ''INDEX_1'') = empty_database\<close>
proof -
  let ?env = \<open>reply_env ''{"document_type":"INDEX_1","entries":[]}''\<close>
  let ?run = "extract_document json_loads ?env empty_database ''/data/index1/a.jpg'' ''INDEX_1''"
  let ?none = "extract_document json_loads (reply_env ''I cannot read this page.'')
                 empty_database ''/data/index1/a.jpg'' ''INDEX_1''"
  have h: "?run = (fst ?run, snd ?run)" by simp
  have n: "documents (snd ?run) \<noteq> documents empty_database" by code_simp
  have h': "?none = (fst ?none, snd ?none)" by simp
  have e: "documents (snd ?none) = documents empty_database" by code_simp
  from document_row_iff_object_persisted [OF h] n document_row_iff_object_persisted [OF h'] e
  show ?thesis by blast
qed

text \<open>
  The claim C5 as stated, refuted on the reply \<open>{}\<close>.
\<close>

theorem empty_object_counterexample:
  \<open>parsed_reply json_loads (reply_env ''{}'') ''/data/index1/a.jpg'' ''INDEX_1''
     = Some (JObj [])
   \<and> documents (snd (extract_document json_loads (reply_env ''{}'') empty_database
        ''/data/index1/a.jpg'' ''INDEX_1'')) = []\<close>
  by code_simp

text \<open>
  Claim C10, as amended. When persisting a parsed object raises, the database is
  unchanged and the error text is stored under \<open>database_error\<close>; the key \<open>error\<close> is not
  added. The last part of the claim fails as stated: the returned object is the parsed
  reply itself, so it is classified as failed when the reply already had a key \<open>error\<close>
  or a true \<open>parsing_error\<close> (the counterexample below), and as successful exactly when
  it had neither.
\<close>

theorem database_error_leaves_database_unchanged:
  assumes p: "parsed_reply loads env image_path index_type = Some (JObj d)"
      and e: "persist env db0 image_path index_type
                (with_metadata env image_path index_type d) = Inl err"
  shows "snd (extract_document loads env db0 image_path index_type) = db0
         \<and> get (fst (extract_document loads env db0 image_path index_type)) ''database_error''
             = JStr (str_error env err)
         \<and> has_key ''error'' (fst (extract_document loads env db0 image_path index_type))
             = has_key ''error'' d
         \<and> failed (fst (extract_document loads env db0 image_path index_type))
             = (has_key ''error'' d \<or> truthy (get d ''parsing_error''))"
proof -
  have r: "extract_document loads env db0 image_path index_type =
             (setitem (with_metadata env image_path index_type d)
                ''database_error'' (JStr (str_error env err)), db0)"
    by (simp add: extract_document_object [OF p] e)
  show ?thesis
    unfolding r
    by (simp add: failed_def with_metadata_def get_setitem has_key_setitem)
qed


lemma parsed_reply_empty_object:
  \<open>parsed_reply json_loads (reply_env ''{}'') ''/data/index1/a.jpg'' ''INDEX_1''
     = Some (JObj [])\<close>
  by code_simp

lemma persist_empty_object:
  \<open>persist (reply_env ''{}'') empty_database ''/data/index1/a.jpg'' ''INDEX_1''
     (with_metadata (reply_env ''{}'') ''/data/index1/a.jpg'' ''INDEX_1'' [])
   = Inl NotNullViolation\<close>
  by code_simp

theorem database_error_leaves_database_unchanged_witness:
  \<open>snd (extract_document json_loads (reply_env ''{}'') empty_database
          ''/data/index1/a.jpg'' ''INDEX_1'') = empty_database
   \<and> get (fst (extract_document json_loads (reply_env ''{}'') empty_database
          ''/data/index1/a.jpg'' ''INDEX_1'')) ''database_error'' = JStr ''database error''
   \<and> \<not> has_key ''error'' (fst (extract_document json_loads (reply_env ''{}'') empty_database
          ''/data/index1/a.jpg'' ''INDEX_1''))
   \<and> \<not> failed (fst (extract_document json_loads (reply_env ''{}'') empty_database
          ''/data/index1/a.jpg'' ''INDEX_1''))\<close>
proof -
  have s: "str_error (reply_env ''{}'') NotNullViolation = ''database error''"
    by (simp add: reply_env_def)
  from database_error_leaves_database_unchanged
         [OF parsed_reply_empty_object persist_empty_object]
  show ?thesis
    by (simp add: s has_key_def get_def)
qed

text \<open>
  The claim C10 as stated, refuted: for the reply \<open>{"error":"x"}\<close> the insertion raises,
  the error is recorded under \<open>database_error\<close>, and the Batch Driver counts the result
  as failed.
\<close>

theorem error_key_in_reply_counterexample:
  \<open>persist (reply_env ''{"error":"x"}'') empty_database ''/data/index1/a.jpg'' ''INDEX_1''
     (with_metadata (reply_env ''{"error":"x"}'') ''/data/index1/a.jpg'' ''INDEX_1''
        [(''error'', JStr ''x'')])
   = Inl NotNullViolation
   \<and> get (fst (extract_document json_loads (reply_env ''{"error":"x"}'') empty_database
          ''/data/index1/a.jpg'' ''INDEX_1'')) ''database_error'' = JStr ''database error''
   \<and> failed (fst (extract_document json_loads (reply_env ''{"error":"x"}'') empty_database
          ''/data/index1/a.jpg'' ''INDEX_1''))
   \<and> summary (results (process_batch_documents json_loads (reply_env ''{"error":"x"}'')
          empty_database ''/data/index1/'' ''/data/index2/''))
      = \<lparr>index1_successful = 0, index1_failed = 3, index2_successful = 0, index2_failed = 1\<rparr>\<close>
  by code_simp

section \<open>The Batch Driver: listing failures\<close>

text \<open>
  Claim C9. If listing either input directory fails, \<open>process_batch_documents\<close> returns
  the summary it started with: all counts zero, both result lists empty. No file has
  been processed (no call of \<open>extract_document\<close>, the database untouched) and no
  exception reaches the caller.
\<close>

theorem listing_failure_returns_zeroed_summary:
  "listdir env index1_folder = None \<or> listdir env index2_folder = None \<Longrightarrow>
   process_batch_documents loads env db0 index1_folder index2_folder =
     \<lparr>results =
        \<lparr>batch_info = \<lparr>processed_at = now env, total_index1_docs = 0,
                        total_index2_docs = 0, total_docs = 0\<rparr>,
         index1_results = [], index2_results = [],
         summary = \<lparr>index1_successful = 0, index1_failed = 0,
                     index2_successful = 0, index2_failed = 0\<rparr>\<rparr>,
      db = db0, calls = [], raised = False\<rparr>"
  by (auto simp: process_batch_documents_def list_files_def initial_results_def
           split: option.splits)

theorem listing_failure_returns_zeroed_summary_witness:
  "(listdir unreadable_env ''/data/index1/'' = None
      \<or> listdir unreadable_env ''/data/index2/'' = None)
   \<and> calls (process_batch_documents json_loads unreadable_env empty_database
              ''/data/index1/'' ''/data/index2/'') = []
   \<and> \<not> raised (process_batch_documents json_loads unreadable_env empty_database
              ''/data/index1/'' ''/data/index2/'')
   \<and> index1_results (results (process_batch_documents json_loads unreadable_env
              empty_database ''/data/index1/'' ''/data/index2/'')) = []"
proof -
  have h: "listdir unreadable_env ''/data/index1/'' = None
             \<or> listdir unreadable_env ''/data/index2/'' = None"
    by (simp add: unreadable_env_def)
  from listing_failure_returns_zeroed_summary [OF h, of json_loads empty_database] h
  show ?thesis by simp
qed

section \<open>The Batch Driver: classification of results\<close>





section \<open>The Batch Driver: selection and order of the files\<close>

lemma process_files_calls:
  "\<exists>k\<le>length files.
     calls (process_files loads env index_type files st)
       = calls st @ map (\<lambda>p. (p, index_type)) (take k files)
     \<and> (\<not> raised (process_files loads env index_type files st) \<longrightarrow> k = length files)"
proof (induction files arbitrary: st)
  case Nil
  then show ?case by simp
next
  case (Cons path rest)
  obtain result db' where e: "extract_document loads env (db st) path index_type = (result, db')"
    by (cases "extract_document loads env (db st) path index_type")
  define st1 where "st1 = st\<lparr>results := append_result index_type result (results st),
                        db := db', calls := calls st @ [(path, index_type)]\<rparr>"
  consider (f) "failed result"
    | (s) "\<not> failed result" "has_len (get_default result ''entries'' (JArr []))"
    | (r) "\<not> failed result" "\<not> has_len (get_default result ''entries'' (JArr []))"
    by blast
  then show ?case
  proof cases
    case f
    define st2 where "st2 = st1\<lparr>results := count_failed index_type (results st1)\<rparr>"
    have step: "process_files loads env index_type (path # rest) st
                  = process_files loads env index_type rest st2"
      using e f by (simp add: Let_def st1_def st2_def)
    from Cons.IH [of st2] obtain k where k: "k \<le> length rest"
      "calls (process_files loads env index_type rest st2)
         = calls st2 @ map (\<lambda>p. (p, index_type)) (take k rest)"
      "\<not> raised (process_files loads env index_type rest st2) \<longrightarrow> k = length rest"
      by blast
    have c: "calls st2 = calls st @ [(path, index_type)]"
      by (simp add: st2_def st1_def)
    show ?thesis
      by (rule exI [of _ "Suc k"]) (use k c step in simp)
  next
    case s
    define st2 where "st2 = st1\<lparr>results := count_successful index_type (results st1)\<rparr>"
    have step: "process_files loads env index_type (path # rest) st
                  = process_files loads env index_type rest st2"
      using e s by (simp add: Let_def st1_def st2_def)
    from Cons.IH [of st2] obtain k where k: "k \<le> length rest"
      "calls (process_files loads env index_type rest st2)
         = calls st2 @ map (\<lambda>p. (p, index_type)) (take k rest)"
      "\<not> raised (process_files loads env index_type rest st2) \<longrightarrow> k = length rest"
      by blast
    have c: "calls st2 = calls st @ [(path, index_type)]"
      by (simp add: st2_def st1_def)
    show ?thesis
      by (rule exI [of _ "Suc k"]) (use k c step in simp)
  next
    case r
    have step: "process_files loads env index_type (path # rest) st
                  = st1\<lparr>results := count_successful index_type (results st1), raised := True\<rparr>"
      using e r by (simp add: Let_def st1_def)
    show ?thesis
      by (rule exI [of _ "Suc 0"]) (simp add: st1_def del: process_files.simps add: step)
  qed
qed

lemma insort_map_mono:
  fixes f :: "'a::linorder \<Rightarrow> 'b::linorder"
  shows "(\<And>y. y \<in> set ys \<Longrightarrow> (f x \<le> f y) = (x \<le> y)) \<Longrightarrow>
         insort (f x) (map f ys) = map f (insort x ys)"
  by (induction ys) auto

lemma sort_map_mono:
  fixes f :: "'a::linorder \<Rightarrow> 'b::linorder"
  shows "(\<And>x y. x \<in> set xs \<Longrightarrow> y \<in> set xs \<Longrightarrow> (f x \<le> f y) = (x \<le> y)) \<Longrightarrow>
         sort (map f xs) = map f (sort xs)"
proof (induction xs)
  case Nil
  then show ?case by simp
next
  case (Cons x xs)
  have "sort (map f xs) = map f (sort xs)"
    using Cons by simp
  moreover have "insort (f x) (map f (sort xs)) = map f (insort x (sort xs))"
    by (rule insort_map_mono) (use Cons.prems in simp)
  ultimately show ?case by (simp add: sort_key_simps)
qed

lemma append_le_append: "((p::string) @ a \<le> p @ b) = (a \<le> b)"
  by (induction p) simp_all

lemma path_join_relative:
  "\<not> startswith n ''/'' \<Longrightarrow>
   path_join folder n = (if folder = [] \<or> endswith folder ''/'' then folder else folder @ ''/'') @ n"
  by (simp add: path_join_def)

lemma sort_path_join:
  assumes "\<forall>n\<in>set names. \<not> startswith n ''/''"
  shows "sort (map (path_join folder) names) = map (path_join folder) (sort names)"
proof (rule sort_map_mono)
  fix x y assume "x \<in> set names" "y \<in> set names"
  with assms have "\<not> startswith x ''/''" "\<not> startswith y ''/''" by auto
  then show "(path_join folder x \<le> path_join folder y) = (x \<le> y)"
    by (simp add: path_join_relative append_le_append)
qed


text \<open>
  Claim C8. The files of a folder are those whose name, in lower case, ends with \<open>.jpg\<close>,
  \<open>.jpeg\<close> or \<open>.png\<close>; they are processed in the lexicographic order of their names
  (\<open>os.listdir\<close> gives names, none starting with a slash), all files of the first
  folder as \<open>INDEX_1\<close> before any file of the second as \<open>INDEX_2\<close>. The calls made
  are always a prefix of that sequence, and the whole of it when the run returns. The
  witness runs the folder \<open>b.png, a.jpg, c.jpeg\<close>.
\<close>

theorem files_selected_sorted_index1_first:
  assumes l1: "listdir env index1_folder = Some names1"
      and l2: "listdir env index2_folder = Some names2"
      and rel: "\<forall>n\<in>set (names1 @ names2). \<not> startswith n ''/''"
  shows "prefix (calls (process_batch_documents loads env db0 index1_folder index2_folder))
           (map (\<lambda>n. (path_join index1_folder n, ''INDEX_1''))
              (sort (filter (\<lambda>f. endswith_any (lower f) [''.jpg'', ''.jpeg'', ''.png'']) names1))
            @ map (\<lambda>n. (path_join index2_folder n, ''INDEX_2''))
              (sort (filter (\<lambda>f. endswith_any (lower f) [''.jpg'', ''.jpeg'', ''.png'']) names2)))
         \<and> (\<not> raised (process_batch_documents loads env db0 index1_folder index2_folder) \<longrightarrow>
              calls (process_batch_documents loads env db0 index1_folder index2_folder)
              = map (\<lambda>n. (path_join index1_folder n, ''INDEX_1''))
                  (sort (filter (\<lambda>f. endswith_any (lower f) [''.jpg'', ''.jpeg'', ''.png'']) names1))
                @ map (\<lambda>n. (path_join index2_folder n, ''INDEX_2''))
                  (sort (filter (\<lambda>f. endswith_any (lower f) [''.jpg'', ''.jpeg'', ''.png'']) names2)))"
proof -
  define files1 where "files1 = sort (map (path_join index1_folder) (filter is_image names1))"
  define files2 where "files2 = sort (map (path_join index2_folder) (filter is_image names2))"
  define st1 where
    "st1 = \<lparr>results = (initial_results env)\<lparr>batch_info :=
               (batch_info (initial_results env))
                 \<lparr>total_index1_docs := length files1,
                  total_index2_docs := length files2,
                  total_docs := length files1 + length files2\<rparr>\<rparr>,
            db = db0, calls = [], raised = False\<rparr>"
  define st2 where "st2 = process_files loads env ''INDEX_1'' files1 st1"
  define R where "R = process_batch_documents loads env db0 index1_folder index2_folder"
  have R: "R = (if raised st2 then st2 else process_files loads env ''INDEX_2'' files2 st2)"
    unfolding R_def process_batch_documents_def list_files_def
    by (simp add: l1 l2 Let_def st2_def st1_def files1_def files2_def)
  have f1: "files1 = map (path_join index1_folder) (sort (filter is_image names1))"
    unfolding files1_def by (rule sort_path_join) (use rel in auto)
  have f2: "files2 = map (path_join index2_folder) (sort (filter is_image names2))"
    unfolding files2_def by (rule sort_path_join) (use rel in auto)
  obtain k where k: "k \<le> length files1"
    "calls st2 = map (\<lambda>p. (p, ''INDEX_1'')) (take k files1)"
    "\<not> raised st2 \<longrightarrow> k = length files1"
    using process_files_calls [of files1 loads env "''INDEX_1''" st1]
    unfolding st2_def by (auto simp: st1_def)
  let ?e1 = "map (\<lambda>p. (p, ''INDEX_1'')) files1"
  let ?e2 = "map (\<lambda>p. (p, ''INDEX_2'')) files2"
  have goal: "prefix (calls R) (?e1 @ ?e2) \<and> (\<not> raised R \<longrightarrow> calls R = ?e1 @ ?e2)"
  proof (cases "raised st2")
    case True
    then have "R = st2" by (simp add: R)
    moreover have "prefix (map (\<lambda>p. (p, ''INDEX_1'')) (take k files1)) ?e1"
      by (simp add: take_is_prefix flip: take_map)
    ultimately show ?thesis using True k by (simp add: prefix_prefix)
  next
    case False
    then have R2: "R = process_files loads env ''INDEX_2'' files2 st2" by (simp add: R)
    from False k have c2: "calls st2 = ?e1" by simp
    obtain j where j: "j \<le> length files2"
      "calls R = calls st2 @ map (\<lambda>p. (p, ''INDEX_2'')) (take j files2)"
      "\<not> raised R \<longrightarrow> j = length files2"
      using process_files_calls [of files2 loads env "''INDEX_2''" st2]
      unfolding R2 by auto
    have "prefix (map (\<lambda>p. (p, ''INDEX_2'')) (take j files2)) ?e2"
      by (simp add: take_is_prefix flip: take_map)
    then show ?thesis using j c2 by auto
  qed
  have im: "is_image = (\<lambda>f. endswith_any (lower f) [''.jpg'', ''.jpeg'', ''.png''])"
    by (rule ext) (simp add: is_image_def)
  have e1: "?e1 = map (\<lambda>n. (path_join index1_folder n, ''INDEX_1''))
              (sort (filter (\<lambda>f. endswith_any (lower f) [''.jpg'', ''.jpeg'', ''.png'']) names1))"
    by (simp add: f1 im comp_def)
  have e2: "?e2 = map (\<lambda>n. (path_join index2_folder n, ''INDEX_2''))
              (sort (filter (\<lambda>f. endswith_any (lower f) [''.jpg'', ''.jpeg'', ''.png'']) names2))"
    by (simp add: f2 im comp_def)
  from goal show ?thesis unfolding R_def e1 e2 .
qed

theorem files_selected_sorted_index1_first_witness:
  \<open>calls (process_batch_documents json_loads
            (reply_env ''{"document_type":"INDEX_1","entries":[]}'') empty_database
            ''/data/index1/'' ''/data/index2/'')
   = [(''/data/index1/a.jpg'', ''INDEX_1''), (''/data/index1/b.png'', ''INDEX_1''),
      (''/data/index1/c.jpeg'', ''INDEX_1''), (''/data/index2/z.PNG'', ''INDEX_2'')]\<close>
proof -
  let ?env = \<open>reply_env ''{"document_type":"INDEX_1","entries":[]}''\<close>
  have l1: "listdir ?env ''/data/index1/'' = Some [''b.png'', ''a.jpg'', ''c.jpeg'']"
    by (simp add: reply_env_def)
  have l2: "listdir ?env ''/data/index2/'' = Some [''z.PNG'', ''readme.md'']"
    by (simp add: reply_env_def)
  have rel: "\<forall>n\<in>set ([''b.png'', ''a.jpg'', ''c.jpeg''] @ [''z.PNG'', ''readme.md'']).
               \<not> startswith n ''/''"
    by (simp add: startswith_def)
  have nr: "\<not> raised (process_batch_documents json_loads ?env empty_database
                        ''/data/index1/'' ''/data/index2/'')"
    by code_simp
  have ev: "map (\<lambda>n. (path_join ''/data/index1/'' n, ''INDEX_1''))
              (sort (filter (\<lambda>f. endswith_any (lower f) [''.jpg'', ''.jpeg'', ''.png''])
                       [''b.png'', ''a.jpg'', ''c.jpeg'']))
            @ map (\<lambda>n. (path_join ''/data/index2/'' n, ''INDEX_2''))
              (sort (filter (\<lambda>f. endswith_any (lower f) [''.jpg'', ''.jpeg'', ''.png''])
                       [''z.PNG'', ''readme.md'']))
            = [(''/data/index1/a.jpg'', ''INDEX_1''), (''/data/index1/b.png'', ''INDEX_1''),
               (''/data/index1/c.jpeg'', ''INDEX_1''), (''/data/index2/z.PNG'', ''INDEX_2'')]"
    by code_simp
  from files_selected_sorted_index1_first [OF l1 l2 rel, of json_loads empty_database] nr
  show ?thesis unfolding ev by blast
qed

end
